theory Spec2Isabelle
  imports Main
begin

section \<open>JavaScript values used by the rule parser\<close>

text \<open>
  A JavaScript number as the parser produces it: \<open>parseInt\<close> yields an integer or
  \<open>NaN\<close>. Numbers are unbounded integers here; the rounding of doubles above
  \<open>2^53\<close> is outside the model. Strings are lists of 8-bit code units, so the line
  terminators a string can hold are LF and CR.
\<close>

datatype number = NaN | Num int

datatype fault = TypeError | InvalidArgumentError

text \<open>Truthiness of a number: \<open>NaN\<close> and \<open>0\<close> are falsy.\<close>

definition truthy :: "number \<Rightarrow> bool" where
  "truthy n = (case n of NaN \<Rightarrow> False | Num i \<Rightarrow> i \<noteq> 0)"

text \<open>\<open>a || b\<close> on numbers.\<close>

definition orElse :: "number \<Rightarrow> number \<Rightarrow> number" where
  "orElse a b = (if truthy a then a else b)"

text \<open>\<open>s.substring(a, b)\<close> for \<open>a \<le> b\<close>; indexes past the end are clamped.\<close>

definition substring :: "nat \<Rightarrow> nat \<Rightarrow> string \<Rightarrow> string" where
  "substring a b s = take (b - a) (drop a s)"

text \<open>\<open>s.split(c)\<close> for a one-character separator: never the empty array.\<close>

fun js_split :: "char \<Rightarrow> string \<Rightarrow> string list" where
  "js_split c [] = [[]]"
| "js_split c (x # xs) =
     (if x = c then [] # js_split c xs
      else (case js_split c xs of
              [] \<Rightarrow> [[x]]
            | p # ps \<Rightarrow> (x # p) # ps))"

definition isWhiteSpace :: "char \<Rightarrow> bool" where
  "isWhiteSpace c = (c \<in> set [CHR 0x09, CHR 0x0A, CHR 0x0B, CHR 0x0C, CHR 0x0D, CHR 0x20, CHR 0xA0])"

definition isDigit :: "char \<Rightarrow> bool" where
  "isDigit c = (c \<in> set ''0123456789'')"

text \<open>The value of a digit in the given radix (10 or 16), if it is one.\<close>

definition digitValue :: "nat \<Rightarrow> char \<Rightarrow> int option" where
  "digitValue radix c =
     (case map_of
        [(CHR ''0'', 0), (CHR ''1'', 1), (CHR ''2'', 2), (CHR ''3'', 3), (CHR ''4'', 4),
         (CHR ''5'', 5), (CHR ''6'', 6), (CHR ''7'', 7), (CHR ''8'', 8), (CHR ''9'', 9),
         (CHR ''a'', 10), (CHR ''b'', 11), (CHR ''c'', 12), (CHR ''d'', 13), (CHR ''e'', 14),
         (CHR ''f'', 15), (CHR ''A'', 10), (CHR ''B'', 11), (CHR ''C'', 12), (CHR ''D'', 13),
         (CHR ''E'', 14), (CHR ''F'', 15)] c of
        None \<Rightarrow> None
      | Some v \<Rightarrow> (if v < int radix then Some v else None))"

text \<open>The longest prefix of digits, read in the radix; \<open>None\<close> when there is no digit.\<close>

fun digitsValue :: "nat \<Rightarrow> int option \<Rightarrow> string \<Rightarrow> int option" where
  "digitsValue radix acc [] = acc"
| "digitsValue radix acc (c # cs) =
     (case digitValue radix c of
        None \<Rightarrow> acc
      | Some v \<Rightarrow>
          digitsValue radix
            (Some ((case acc of None \<Rightarrow> 0 | Some a \<Rightarrow> a * int radix) + v)) cs)"

text \<open>
  \<open>parseInt(s)\<close> without a radix: leading white space is skipped, then an optional
  sign, then an optional \<open>0x\<close>/\<open>0X\<close> prefix selecting radix 16, then the longest run of
  digits; no digit gives \<open>NaN\<close>.
\<close>

definition parseInt :: "string \<Rightarrow> number" where
  "parseInt s =
     (let s1 = dropWhile isWhiteSpace s;
          sign = (case s1 of c # _ \<Rightarrow> (if c = CHR ''-'' then - 1 else 1) | [] \<Rightarrow> (1::int));
          s2 = (case s1 of c # r \<Rightarrow> (if c = CHR ''-'' \<or> c = CHR ''+'' then r else s1) | [] \<Rightarrow> s1);
          hex = (take 2 s2 = ''0x'' \<or> take 2 s2 = ''0X'');
          radix = (if hex then 16 else 10);
          s3 = (if hex then drop 2 s2 else s2)
      in case digitsValue radix None s3 of
           None \<Rightarrow> NaN
         | Some v \<Rightarrow> Num (sign * v))"

text \<open>\<open>parseInt(value)\<close> where \<open>value\<close> may be \<open>undefined\<close>.\<close>

definition parseIntOpt :: "string option \<Rightarrow> number" where
  "parseIntOpt v = (case v of None \<Rightarrow> NaN | Some s \<Rightarrow> parseInt s)"

subsection \<open>The two regular expressions\<close>

text \<open>
  \<open>/DTSTART;TZID=([^:]+):(\d{8}T\d{6})/\<close>. Anchored at the head of \<open>s\<close>: the
  literal, the longest run of characters other than \<open>:\<close> (at least one; a shorter
  run cannot be followed by \<open>:\<close>), the colon, and the 15-character stamp.
\<close>

definition isStamp :: "string \<Rightarrow> bool" where
  "isStamp d = (length d = 15 \<and> list_all isDigit (take 8 d) \<and> d ! 8 = CHR ''T''
                \<and> list_all isDigit (drop 9 d))"

definition zoneAndStamp :: "string \<Rightarrow> (string \<times> string) option" where
  "zoneAndStamp r =
     (let z = takeWhile (\<lambda>c. c \<noteq> CHR '':'') r;
          r' = dropWhile (\<lambda>c. c \<noteq> CHR '':'') r
      in if z \<noteq> [] \<and> r' \<noteq> [] \<and> isStamp (take 15 (tl r'))
         then Some (z, take 15 (tl r')) else None)"

definition dtstartAt :: "string \<Rightarrow> (string \<times> string) option" where
  "dtstartAt s =
     (if take 13 s = ''DTSTART;TZID='' then zoneAndStamp (drop 13 s) else None)"

text \<open>\<open>String.prototype.match\<close> without the global flag: the leftmost match.\<close>

fun dtstartMatch :: "string \<Rightarrow> (string \<times> string) option" where
  "dtstartMatch [] = dtstartAt []"
| "dtstartMatch (c # cs) =
     (case dtstartAt (c # cs) of
        Some m \<Rightarrow> Some m
      | None \<Rightarrow> dtstartMatch cs)"

text \<open>\<open>/RRULE:(.+)/\<close>: the dot matches everything but a line terminator, greedily.\<close>

definition isLineTerminator :: "char \<Rightarrow> bool" where
  "isLineTerminator c = (c = CHR 0x0A \<or> c = CHR 0x0D)"

definition rruleAt :: "string \<Rightarrow> string option" where
  "rruleAt s =
     (if take 6 s = ''RRULE:'' then
        (let g = takeWhile (\<lambda>c. \<not> isLineTerminator c) (drop 6 s)
         in if g \<noteq> [] then Some g else None)
      else None)"

fun rruleMatch :: "string \<Rightarrow> string option" where
  "rruleMatch [] = rruleAt []"
| "rruleMatch (c # cs) =
     (case rruleAt (c # cs) of
        Some g \<Rightarrow> Some g
      | None \<Rightarrow> rruleMatch cs)"

section \<open>The date-time capability\<close>

text \<open>
  Modelled from the spec: the date-time capability (the JavaScript \<open>Date\<close> and the
  \<open>DateTime\<close> of the calendar library the source imports) is external to the
  repository. It is modelled on the proleptic Gregorian calendar, an instant being a
  number of milliseconds since 1970-01-01T00:00:00Z. What the runtime decides is a
  parameter: the UTC offset of the system zone, in minutes; for each supported zone
  identifier the UTC offset the zone has at each instant, in minutes; and the instant
  denoted by a reference text that is not of the form \<open>YYYY-MM-DDTHH:MM:SS\<close>. The
  system zone, in which the cursor of the generators moves, has a fixed offset; a
  target zone may change its offset from one instant to another.
\<close>

record env =
  sysOffset :: int
  zoneOffset :: "string \<Rightarrow> (int \<Rightarrow> int) option"
  parseISO :: "string \<Rightarrow> int option"

abbreviation msPerDay :: int where "msPerDay \<equiv> 86400000"
abbreviation msPerHour :: int where "msPerHour \<equiv> 3600000"
abbreviation msPerMinute :: int where "msPerMinute \<equiv> 60000"
abbreviation msPerSecond :: int where "msPerSecond \<equiv> 1000"

text \<open>The largest time value of a \<open>Date\<close>; beyond it the time value is \<open>NaN\<close>.\<close>

abbreviation maxTime :: int where "maxTime \<equiv> 8640000000000000"

definition isLeapYear :: "int \<Rightarrow> bool" where
  "isLeapYear y = (y mod 4 = 0 \<and> (y mod 100 \<noteq> 0 \<or> y mod 400 = 0))"

text \<open>The day number of 1 January of year \<open>y\<close> (day 0 is 1970-01-01).\<close>

definition dayFromYear :: "int \<Rightarrow> int" where
  "dayFromYear y = 365 * (y - 1970) + (y - 1969) div 4 - (y - 1901) div 100 + (y - 1601) div 400"

text \<open>Days of the year before the first of month \<open>m\<close> (0 = January).\<close>

definition daysBeforeMonth :: "bool \<Rightarrow> nat \<Rightarrow> int" where
  "daysBeforeMonth leap m =
     [0, 31, 59, 90, 120, 151, 181, 212, 243, 273, 304, 334] ! m + (if leap \<and> 2 \<le> m then 1 else 0)"

text \<open>
  The day number of a year, a month index (0 = January) and a day of the month; a month
  index outside 0..11 and a day outside the month carry over, as \<open>Date.UTC\<close> does.
\<close>

definition makeDay :: "int \<Rightarrow> int \<Rightarrow> int \<Rightarrow> int" where
  "makeDay y m d =
     (let ym = y + m div 12; mn = nat (m mod 12)
      in dayFromYear ym + daysBeforeMonth (isLeapYear ym) mn + d - 1)"

text \<open>The length of a month (1 = January); a month outside 1..12 carries into the year.\<close>

definition daysInMonth :: "int \<Rightarrow> int \<Rightarrow> int" where
  "daysInMonth y m =
     (let modMonth = (m - 1) mod 12 + 1; modYear = y + (m - modMonth) div 12
      in if modMonth = 2 then (if isLeapYear modYear then 29 else 28)
         else [31, 28, 31, 30, 31, 30, 31, 31, 30, 31, 30, 31] ! nat (modMonth - 1))"

text \<open>Year, month (1 = January) and day of the month of a day number.\<close>

definition civilFromDays :: "int \<Rightarrow> int \<times> int \<times> int" where
  "civilFromDays z =
     (let z' = z + 719468;
          era = z' div 146097;
          doe = z' mod 146097;
          yoe = (doe - doe div 1460 + doe div 36524 - doe div 146096) div 365;
          doy = doe - (365 * yoe + yoe div 4 - yoe div 100);
          mp = (5 * doy + 2) div 153;
          d = doy - (153 * mp + 2) div 5 + 1;
          m = (if mp < 10 then mp + 3 else mp - 9);
          y = yoe + era * 400
      in (if m \<le> 2 then y + 1 else y, m, d))"

record civil =
  year :: int
  month :: int
  day :: int
  hour :: int
  minute :: int
  second :: int
  millisecond :: int

text \<open>The civil fields of an instant at an offset, and the local time value of civil fields.\<close>

definition civilOf :: "int \<times> int \<times> int \<Rightarrow> int \<Rightarrow> civil" where
  "civilOf ymd r =
     \<lparr>year = fst ymd, month = fst (snd ymd), day = snd (snd ymd),
      hour = r div msPerHour, minute = (r mod msPerHour) div msPerMinute,
      second = (r mod msPerMinute) div msPerSecond, millisecond = r mod msPerSecond\<rparr>"

definition tsToObj :: "int \<Rightarrow> int \<Rightarrow> civil" where
  "tsToObj t off =
     civilOf (civilFromDays ((t + off * msPerMinute) div msPerDay))
       ((t + off * msPerMinute) mod msPerDay)"

definition objToLocalTS :: "civil \<Rightarrow> int" where
  "objToLocalTS c =
     makeDay (year c) (month c - 1) (day c) * msPerDay
     + hour c * msPerHour + minute c * msPerMinute + second c * msPerSecond + millisecond c"

text \<open>A JavaScript \<open>Date\<close>: a time value, or the invalid date.\<close>

datatype JSDate = InvalidDate | Date int

text \<open>A \<open>DateTime\<close>: invalid, or an instant together with the offset of its zone.\<close>

datatype DateTime = Invalid | DT (ts: int) (offset: int)

text \<open>The \<open>DateTime\<close> of a local time value at an offset; out of range is invalid.\<close>

definition mkLocal :: "int \<Rightarrow> int \<Rightarrow> DateTime" where
  "mkLocal local off = (if \<bar>local\<bar> > maxTime then Invalid else DT (local - off * msPerMinute) off)"

text \<open>The fields of a call, when none of them is \<open>NaN\<close>.\<close>

fun allNums :: "number list \<Rightarrow> int list option" where
  "allNums [] = Some []"
| "allNums (NaN # ns) = None"
| "allNums (Num i # ns) = (case allNums ns of None \<Rightarrow> None | Some is \<Rightarrow> Some (i # is))"

text \<open>
  \<open>DateTime.fromObject({year, month, day, hour, minute, second}, {zone: "UTC"})\<close>:
  a \<open>NaN\<close> field is rejected with a fault, fields that are no date or no time of day
  give the invalid \<open>DateTime\<close>.
\<close>

definition fromObjectUTC :: "number \<Rightarrow> number \<Rightarrow> number \<Rightarrow> number \<Rightarrow> number \<Rightarrow> number \<Rightarrow> fault + DateTime" where
  "fromObjectUTC y mo d h mi s =
     (case allNums [y, mo, d, h, mi, s] of
        Some [y', mo', d', h', mi', s'] \<Rightarrow>
          (if 1 \<le> mo' \<and> mo' \<le> 12 \<and> 1 \<le> d' \<and> d' \<le> daysInMonth y' mo'
              \<and> ((0 \<le> h' \<and> h' \<le> 23) \<or> (h' = 24 \<and> mi' = 0 \<and> s' = 0))
              \<and> 0 \<le> mi' \<and> mi' \<le> 59 \<and> 0 \<le> s' \<and> s' \<le> 59
           then Inr (mkLocal (objToLocalTS \<lparr>year = y', month = mo', day = d', hour = h',
                                            minute = mi', second = s', millisecond = 0\<rparr>) 0)
           else Inr Invalid)
      | _ \<Rightarrow> Inl InvalidArgumentError)"

fun toJSDate :: "DateTime \<Rightarrow> JSDate" where
  "toJSDate Invalid = InvalidDate"
| "toJSDate (DT t off) = Date t"

text \<open>\<open>DateTime.fromJSDate(date)\<close>: the instant, in the system zone.\<close>

fun fromJSDate :: "env \<Rightarrow> JSDate \<Rightarrow> DateTime" where
  "fromJSDate e InvalidDate = Invalid"
| "fromJSDate e (Date t) = DT t (sysOffset e)"

text \<open>
  \<open>DateTime.fromISO(text)\<close>. A text \<open>YYYY-MM-DDTHH:MM:SS\<close> is read as civil fields in
  the system zone; followed by \<open>Z\<close> or by an offset \<open>+HH:MM\<close> or \<open>-HH:MM\<close> it denotes an
  instant, which is then shown in the system zone. Fields that are no date or no time of
  day give the invalid \<open>DateTime\<close>. What any other text denotes is left to the
  environment.
\<close>

definition digitsOnly :: "string \<Rightarrow> int option" where
  "digitsOnly s = (if s \<noteq> [] \<and> list_all isDigit s then digitsValue 10 None s else None)"

definition isoCivil :: "string \<Rightarrow> (civil \<times> string) option" where
  "isoCivil s =
     (if 19 \<le> length s \<and> s ! 4 = CHR ''-'' \<and> s ! 7 = CHR ''-'' \<and> s ! 10 = CHR ''T''
         \<and> s ! 13 = CHR '':'' \<and> s ! 16 = CHR '':''
      then (case (digitsOnly (substring 0 4 s), digitsOnly (substring 5 7 s),
                  digitsOnly (substring 8 10 s), digitsOnly (substring 11 13 s),
                  digitsOnly (substring 14 16 s), digitsOnly (substring 17 19 s)) of
              (Some y, Some mo, Some d, Some h, Some mi, Some sec) \<Rightarrow>
                Some (\<lparr>year = y, month = mo, day = d, hour = h, minute = mi, second = sec,
                       millisecond = 0\<rparr>, drop 19 s)
            | _ \<Rightarrow> None)
      else None)"

text \<open>The offset part of the text: none (\<open>Some None\<close>), or an offset in minutes.\<close>

definition isoOffset :: "string \<Rightarrow> int option option" where
  "isoOffset r =
     (if r = [] then Some None
      else if r = ''Z'' then Some (Some 0)
      else if length r = 6 \<and> (r ! 0 = CHR ''+'' \<or> r ! 0 = CHR ''-'') \<and> r ! 3 = CHR '':''
      then (case (digitsOnly (substring 1 3 r), digitsOnly (substring 4 6 r)) of
              (Some hh, Some mm) \<Rightarrow>
                Some (Some ((if r ! 0 = CHR ''-'' then - 1 else 1) * (hh * 60 + mm)))
            | _ \<Rightarrow> None)
      else None)"

definition validCivil :: "civil \<Rightarrow> bool" where
  "validCivil c =
     (1 \<le> month c \<and> month c \<le> 12 \<and> 1 \<le> day c \<and> day c \<le> daysInMonth (year c) (month c)
      \<and> ((0 \<le> hour c \<and> hour c \<le> 23) \<or> (hour c = 24 \<and> minute c = 0 \<and> second c = 0))
      \<and> 0 \<le> minute c \<and> minute c \<le> 59 \<and> 0 \<le> second c \<and> second c \<le> 59)"

definition fromInstant :: "env \<Rightarrow> int option \<Rightarrow> DateTime" where
  "fromInstant e r = (case r of None \<Rightarrow> Invalid | Some t \<Rightarrow> DT t (sysOffset e))"

definition fromISO :: "env \<Rightarrow> string \<Rightarrow> DateTime" where
  "fromISO e s =
     (case isoCivil s of
        None \<Rightarrow> fromInstant e (parseISO e s)
      | Some (c, r) \<Rightarrow>
          (case isoOffset r of
             None \<Rightarrow> fromInstant e (parseISO e s)
           | Some zone \<Rightarrow>
               (if validCivil c then
                  (case zone of
                     None \<Rightarrow> mkLocal (objToLocalTS c) (sysOffset e)
                   | Some off \<Rightarrow> DT (objToLocalTS c - off * msPerMinute) (sysOffset e))
                else Invalid)))"

text \<open>
  \<open>new Date(year, monthIndex, day, hours, minutes, seconds)\<close>: the fields are read in
  the system zone; a year from 0 to 99 means 1900 + year; a \<open>NaN\<close> field gives the
  invalid date.
\<close>

definition newDate :: "env \<Rightarrow> number \<Rightarrow> number \<Rightarrow> number \<Rightarrow> number \<Rightarrow> number \<Rightarrow> number \<Rightarrow> JSDate" where
  "newDate e y mo d h mi s =
     (case allNums [y, mo, d, h, mi, s] of
        Some [y', mo', d', h', mi', s'] \<Rightarrow>
          (let yr = (if 0 \<le> y' \<and> y' \<le> 99 then 1900 + y' else y');
               local = makeDay yr mo' d' * msPerDay + h' * msPerHour + mi' * msPerMinute
                       + s' * msPerSecond;
               t = local - sysOffset e * msPerMinute
           in if \<bar>t\<bar> > maxTime then InvalidDate else Date t)
      | _ \<Rightarrow> InvalidDate)"

text \<open>\<open>a > b\<close> and \<open>a >= b\<close> on dates compare time values; \<open>NaN\<close> compares false.\<close>

fun date_gt :: "JSDate \<Rightarrow> JSDate \<Rightarrow> bool" where
  "date_gt (Date x) (Date y) = (x > y)"
| "date_gt _ _ = False"

fun date_ge :: "JSDate \<Rightarrow> JSDate \<Rightarrow> bool" where
  "date_ge (Date x) (Date y) = (x \<ge> y)"
| "date_ge _ _ = False"

text \<open>\<open>a <= b\<close> on two \<open>DateTime\<close>s compares instants; an invalid one compares false.\<close>

fun dt_le :: "DateTime \<Rightarrow> DateTime \<Rightarrow> bool" where
  "dt_le (DT x _) (DT y _) = (x \<le> y)"
| "dt_le _ _ = False"

text \<open>
  \<open>dt.plus({days: n})\<close> and its siblings. An invalid \<open>DateTime\<close> is returned as it is;
  otherwise a \<open>NaN\<close> amount is a fault. Days and weeks move the local time by whole
  days; months and years keep the day of the month, clamped to the length of the
  month reached.
\<close>

fun addDays :: "int \<Rightarrow> DateTime \<Rightarrow> DateTime" where
  "addDays k Invalid = Invalid"
| "addDays k (DT t off) = mkLocal (t + off * msPerMinute + k * msPerDay) off"

fun plusDays :: "number \<Rightarrow> DateTime \<Rightarrow> fault + DateTime" where
  "plusDays n Invalid = Inr Invalid"
| "plusDays NaN (DT t off) = Inl InvalidArgumentError"
| "plusDays (Num k) (DT t off) = Inr (addDays k (DT t off))"

fun plusWeeks :: "number \<Rightarrow> DateTime \<Rightarrow> fault + DateTime" where
  "plusWeeks n Invalid = Inr Invalid"
| "plusWeeks NaN (DT t off) = Inl InvalidArgumentError"
| "plusWeeks (Num k) (DT t off) = Inr (addDays (k * 7) (DT t off))"

text \<open>The civil fields reached by adding months, or years: the day of the month is
  clamped to the length of the month reached; the month may leave 1..12 and carries
  into the year when the time value is taken.\<close>

definition addMonthsCivil :: "int \<Rightarrow> civil \<Rightarrow> civil" where
  "addMonthsCivil k c =
     c\<lparr>month := month c + k, day := min (day c) (daysInMonth (year c) (month c + k))\<rparr>"

definition addYearsCivil :: "int \<Rightarrow> civil \<Rightarrow> civil" where
  "addYearsCivil k c =
     c\<lparr>year := year c + k, day := min (day c) (daysInMonth (year c + k) (month c))\<rparr>"

fun addMonths :: "int \<Rightarrow> DateTime \<Rightarrow> DateTime" where
  "addMonths k Invalid = Invalid"
| "addMonths k (DT t off) = mkLocal (objToLocalTS (addMonthsCivil k (tsToObj t off))) off"

fun addYears :: "int \<Rightarrow> DateTime \<Rightarrow> DateTime" where
  "addYears k Invalid = Invalid"
| "addYears k (DT t off) = mkLocal (objToLocalTS (addYearsCivil k (tsToObj t off))) off"

fun plusMonths :: "number \<Rightarrow> DateTime \<Rightarrow> fault + DateTime" where
  "plusMonths n Invalid = Inr Invalid"
| "plusMonths NaN (DT t off) = Inl InvalidArgumentError"
| "plusMonths (Num k) (DT t off) = Inr (addMonths k (DT t off))"

fun plusYears :: "number \<Rightarrow> DateTime \<Rightarrow> fault + DateTime" where
  "plusYears n Invalid = Inr Invalid"
| "plusYears NaN (DT t off) = Inl InvalidArgumentError"
| "plusYears (Num k) (DT t off) = Inr (addYears k (DT t off))"

text \<open>\<open>dt.startOf("month")\<close> and \<open>dt.endOf("month")\<close>; the latter is the millisecond
  before the start of the next month.\<close>

fun startOfMonth :: "DateTime \<Rightarrow> DateTime" where
  "startOfMonth Invalid = Invalid"
| "startOfMonth (DT t off) =
     mkLocal (objToLocalTS ((tsToObj t off)\<lparr>day := 1, hour := 0, minute := 0, second := 0,
                                             millisecond := 0\<rparr>)) off"

text \<open>\<open>dt.minus(1)\<close>, and \<open>startOf("month")\<close> of the result of \<open>plus({months: 1})\<close>.\<close>

fun minusMillisecond :: "DateTime \<Rightarrow> DateTime" where
  "minusMillisecond Invalid = Invalid"
| "minusMillisecond (DT t off) = mkLocal (t + off * msPerMinute - 1) off"

fun startOfNextMonth :: "fault + DateTime \<Rightarrow> DateTime" where
  "startOfNextMonth (Inl f) = Invalid"
| "startOfNextMonth (Inr nxt) = startOfMonth nxt"

fun endOfMonth :: "DateTime \<Rightarrow> DateTime" where
  "endOfMonth Invalid = Invalid"
| "endOfMonth (DT t off) = minusMillisecond (startOfNextMonth (plusMonths (Num 1) (DT t off)))"

text \<open>\<open>dt.weekday\<close>: 1 is Monday, 7 is Sunday; \<open>NaN\<close> when invalid.\<close>

fun weekday :: "DateTime \<Rightarrow> number" where
  "weekday Invalid = NaN"
| "weekday (DT t off) = Num (((t + off * msPerMinute) div msPerDay + 3) mod 7 + 1)"

text \<open>The time-of-day getters; \<open>NaN\<close> when invalid.\<close>

fun dt_hour :: "DateTime \<Rightarrow> number" where
  "dt_hour Invalid = NaN"
| "dt_hour (DT t off) = Num (hour (tsToObj t off))"

fun dt_minute :: "DateTime \<Rightarrow> number" where
  "dt_minute Invalid = NaN"
| "dt_minute (DT t off) = Num (minute (tsToObj t off))"

fun dt_second :: "DateTime \<Rightarrow> number" where
  "dt_second Invalid = NaN"
| "dt_second (DT t off) = Num (second (tsToObj t off))"

text \<open>
  The \<open>DateTime\<close> of an instant in a zone, given the offsets of the zone: the offset is
  the one the zone has at that instant; civil fields out of range make it invalid.
\<close>

definition zoned :: "(int \<Rightarrow> int) \<Rightarrow> int \<Rightarrow> DateTime" where
  "zoned f t = (if \<bar>t + f t * msPerMinute\<bar> > maxTime then Invalid else DT t (f t))"

text \<open>\<open>dt.setZone(zone)\<close>: the same instant in another zone; an unsupported zone
  identifier gives the invalid \<open>DateTime\<close>.\<close>

fun setZone :: "env \<Rightarrow> string \<Rightarrow> DateTime \<Rightarrow> DateTime" where
  "setZone e z Invalid = Invalid"
| "setZone e z (DT t off) = (case zoneOffset e z of None \<Rightarrow> Invalid | Some f \<Rightarrow> zoned f t)"

text \<open>
  The instant of a local time value in a zone, starting from the offset \<open>off\<close> the zone
  had before: if the zone has the offset \<open>off\<close> at the instant so obtained, that is the
  instant; otherwise the offset found there is tried; if the zone has yet another offset
  at the second instant, the local time does not exist in the zone (it falls into a gap)
  and the instant is taken with the smaller of the two offsets.
\<close>

definition fixOffset :: "(int \<Rightarrow> int) \<Rightarrow> int \<Rightarrow> int \<Rightarrow> int" where
  "fixOffset f localTS off =
     (let utcGuess = localTS - off * msPerMinute;
          o2 = f utcGuess
      in if off = o2 then utcGuess
         else (let utcGuess' = utcGuess - (o2 - off) * msPerMinute;
                   o3 = f utcGuess'
               in if o2 = o3 then utcGuess'
                  else localTS - min o2 o3 * msPerMinute))"

text \<open>The offsets of the zone a \<open>DateTime\<close> obtained by \<open>setZone\<close> is in. For an
  unsupported identifier that \<open>DateTime\<close> is invalid and the offsets are not consulted.\<close>

definition offsetsOf :: "env \<Rightarrow> string \<Rightarrow> int \<Rightarrow> int" where
  "offsetsOf e z = (case zoneOffset e z of None \<Rightarrow> (\<lambda>t. 0) | Some f \<Rightarrow> f)"

text \<open>
  \<open>dt.set({hour, minute, second})\<close> on a \<open>DateTime\<close> in the zone with offsets \<open>f\<close>: the
  date and the millisecond of \<open>dt\<close> in its zone, with the time of day overwritten, and
  the instant this local time has in the zone. An invalid \<open>DateTime\<close> is returned as
  it is; otherwise a \<open>NaN\<close> field is a fault.
\<close>

definition pinnedLocal :: "int \<Rightarrow> int \<Rightarrow> int \<Rightarrow> int \<Rightarrow> int" where
  "pinnedLocal l h mi s =
     (l div msPerDay) * msPerDay + h * msPerHour + mi * msPerMinute + s * msPerSecond
     + l mod msPerSecond"

fun setTime :: "(int \<Rightarrow> int) \<Rightarrow> number \<Rightarrow> number \<Rightarrow> number \<Rightarrow> DateTime \<Rightarrow> fault + DateTime" where
  "setTime f h mi s Invalid = Inr Invalid"
| "setTime f (Num h) (Num mi) (Num s) (DT t off) =
     Inr (if \<bar>pinnedLocal (t + off * msPerMinute) h mi s\<bar> > maxTime then Invalid
          else zoned f (fixOffset f (pinnedLocal (t + off * msPerMinute) h mi s) off))"
| "setTime f h mi s (DT t off) = Inl InvalidArgumentError"

text \<open>
  \<open>dt.toString()\<close>. The text is represented by what it prints: the marker
  \<open>Invalid DateTime\<close>, or the civil fields in the zone of \<open>dt\<close> and the offset suffix.
\<close>

datatype formatted = InvalidDateTime | ISO civil int

fun toString :: "DateTime \<Rightarrow> formatted" where
  "toString Invalid = InvalidDateTime"
| "toString (DT t off) = ISO (tsToObj t off) off"

section \<open>The recurrence options\<close>

datatype Frequency = DAILY | WEEKLY | MONTHLY | YEARLY

datatype Weekday = SU | MO | TU | WE | TH | FR | SA

text \<open>The numeric value of the enumeration: 0 is Sunday, 6 is Saturday.\<close>

fun weekdayNum :: "Weekday \<Rightarrow> int" where
  "weekdayNum SU = 0"
| "weekdayNum MO = 1"
| "weekdayNum TU = 2"
| "weekdayNum WE = 3"
| "weekdayNum TH = 4"
| "weekdayNum FR = 5"
| "weekdayNum SA = 6"

text \<open>An optional field is \<open>None\<close> while it is \<open>undefined\<close>.\<close>

record options =
  freq :: Frequency
  interval :: number
  dtstart :: JSDate
  until :: "JSDate option"
  wkst :: "Weekday option"
  byweekday :: "Weekday list option"
  bysetpos :: "number list option"
  count :: "number option"

section \<open>The rule parser\<close>

text \<open>\<open>const [key, value] = part.split("=")\<close>: \<open>value\<close> is \<open>undefined\<close> without \<open>=\<close>.\<close>

definition keyOf :: "string \<Rightarrow> string" where
  "keyOf part = (case js_split CHR ''='' part of [] \<Rightarrow> [] | k # _ \<Rightarrow> k)"

definition valueOf :: "string \<Rightarrow> string option" where
  "valueOf part = (case js_split CHR ''='' part of k # v # _ \<Rightarrow> Some v | _ \<Rightarrow> None)"

definition parseFreq :: "string option \<Rightarrow> Frequency option" where
  "parseFreq v =
     (if v = Some ''DAILY'' then Some DAILY
      else if v = Some ''WEEKLY'' then Some WEEKLY
      else if v = Some ''MONTHLY'' then Some MONTHLY
      else if v = Some ''YEARLY'' then Some YEARLY
      else None)"

definition parseWkst :: "string option \<Rightarrow> Weekday option" where
  "parseWkst v =
     (if v = Some ''SU'' then Some SU
      else if v = Some ''MO'' then Some MO
      else if v = Some ''TU'' then Some TU
      else if v = Some ''WE'' then Some WE
      else if v = Some ''TH'' then Some TH
      else if v = Some ''FR'' then Some FR
      else if v = Some ''SA'' then Some SA
      else None)"

text \<open>The \<open>BYDAY\<close> token map: an unknown token is Monday.\<close>

definition parseByDay :: "string \<Rightarrow> Weekday" where
  "parseByDay d =
     (if d = ''SU'' then SU
      else if d = ''MO'' then MO
      else if d = ''TU'' then TU
      else if d = ''WE'' then WE
      else if d = ''TH'' then TH
      else if d = ''FR'' then FR
      else if d = ''SA'' then SA
      else MO)"

text \<open>\<open>n - 1\<close> on a number.\<close>

definition pred_num :: "number \<Rightarrow> number" where
  "pred_num n = (case n of NaN \<Rightarrow> NaN | Num i \<Rightarrow> Num (i - 1))"

text \<open>
  One round of the \<open>forEach\<close> over the parts of the \<open>RRULE\<close> line, in the class
  \<open>TimezoneRRule\<close>. A method call on an \<open>undefined\<close> value is a \<open>TypeError\<close>.
\<close>

definition parsePart :: "env \<Rightarrow> options \<Rightarrow> string \<Rightarrow> fault + options" where
  "parsePart e opts part =
     (let key = keyOf part; value = valueOf part
      in if key = ''FREQ'' then
           (case parseFreq value of None \<Rightarrow> Inr opts | Some f \<Rightarrow> Inr (opts\<lparr>freq := f\<rparr>))
         else if key = ''INTERVAL'' then Inr (opts\<lparr>interval := parseIntOpt value\<rparr>)
         else if key = ''UNTIL'' then
           (case value of
              None \<Rightarrow> Inl TypeError
            | Some untilStr \<Rightarrow>
                (let untilYear = parseInt (substring 0 4 untilStr);
                     untilMonth = parseInt (substring 4 6 untilStr);
                     untilDay = parseInt (substring 6 8 untilStr);
                     untilHour = orElse (parseInt (substring 9 11 untilStr)) (Num 23);
                     untilMinute = orElse (parseInt (substring 11 13 untilStr)) (Num 59);
                     untilSecond = orElse (parseInt (substring 13 15 untilStr)) (Num 59)
                 in Inr (opts\<lparr>until := Some (newDate e untilYear (pred_num untilMonth) untilDay
                                                 untilHour untilMinute untilSecond)\<rparr>)))
         else if key = ''WKST'' then
           (case parseWkst value of None \<Rightarrow> Inr opts | Some w \<Rightarrow> Inr (opts\<lparr>wkst := Some w\<rparr>))
         else if key = ''BYDAY'' then
           (case value of
              None \<Rightarrow> Inl TypeError
            | Some v \<Rightarrow> Inr (opts\<lparr>byweekday := Some (map parseByDay (js_split CHR '','' v))\<rparr>))
         else if key = ''BYSETPOS'' then
           (case value of
              None \<Rightarrow> Inl TypeError
            | Some v \<Rightarrow> Inr (opts\<lparr>bysetpos := Some (map parseInt (js_split CHR '','' v))\<rparr>))
         else if key = ''COUNT'' then Inr (opts\<lparr>count := Some (parseIntOpt value)\<rparr>)
         else Inr opts)"

text \<open>The same round in the closure of the hook: only the \<open>UNTIL\<close> case differs.\<close>

definition hook_parsePart :: "env \<Rightarrow> options \<Rightarrow> string \<Rightarrow> fault + options" where
  "hook_parsePart e opts part =
     (let key = keyOf part; value = valueOf part
      in if key = ''FREQ'' then
           (case parseFreq value of None \<Rightarrow> Inr opts | Some f \<Rightarrow> Inr (opts\<lparr>freq := f\<rparr>))
         else if key = ''INTERVAL'' then Inr (opts\<lparr>interval := parseIntOpt value\<rparr>)
         else if key = ''UNTIL'' then
           (case value of
              None \<Rightarrow> Inl TypeError
            | Some untilStr \<Rightarrow>
                (let untilYear = parseInt (substring 0 4 untilStr);
                     untilMonth = parseInt (substring 4 6 untilStr);
                     untilDay = parseInt (substring 6 8 untilStr);
                     untilHour = orElse (parseInt (substring 9 11 untilStr)) (Num 23);
                     untilMinute = orElse (parseInt (substring 11 13 untilStr)) (Num 59);
                     untilSecond = orElse (parseInt (substring 13 15 untilStr)) (Num 59)
                 in case fromObjectUTC untilYear untilMonth untilDay untilHour untilMinute
                           untilSecond of
                      Inl f \<Rightarrow> Inl f
                    | Inr untilDateTime \<Rightarrow> Inr (opts\<lparr>until := Some (toJSDate untilDateTime)\<rparr>)))
         else if key = ''WKST'' then
           (case parseWkst value of None \<Rightarrow> Inr opts | Some w \<Rightarrow> Inr (opts\<lparr>wkst := Some w\<rparr>))
         else if key = ''BYDAY'' then
           (case value of
              None \<Rightarrow> Inl TypeError
            | Some v \<Rightarrow> Inr (opts\<lparr>byweekday := Some (map parseByDay (js_split CHR '','' v))\<rparr>))
         else if key = ''BYSETPOS'' then
           (case value of
              None \<Rightarrow> Inl TypeError
            | Some v \<Rightarrow> Inr (opts\<lparr>bysetpos := Some (map parseInt (js_split CHR '','' v))\<rparr>))
         else if key = ''COUNT'' then Inr (opts\<lparr>count := Some (parseIntOpt value)\<rparr>)
         else Inr opts)"

text \<open>\<open>parts.forEach\<close>: the parts in order; a fault ends the loop.\<close>

fun forEachPart :: "(options \<Rightarrow> string \<Rightarrow> fault + options) \<Rightarrow> options \<Rightarrow> string list \<Rightarrow> fault + options" where
  "forEachPart f opts [] = Inr opts"
| "forEachPart f opts (p # ps) =
     (case f opts p of Inl x \<Rightarrow> Inl x | Inr opts' \<Rightarrow> forEachPart f opts' ps)"

text \<open>The start instant: the six fields of the stamp, read as UTC.\<close>

definition dtstartOf :: "string \<Rightarrow> fault + DateTime" where
  "dtstartOf dtstartStr =
     fromObjectUTC (parseInt (substring 0 4 dtstartStr)) (parseInt (substring 4 6 dtstartStr))
       (parseInt (substring 6 8 dtstartStr)) (parseInt (substring 9 11 dtstartStr))
       (parseInt (substring 11 13 dtstartStr)) (parseInt (substring 13 15 dtstartStr))"

text \<open>
  \<open>TimezoneRRule.parseRRuleString\<close>. \<open>Inr None\<close> is the \<open>null\<close> result, \<open>Inl\<close> a raised
  fault. The second argument is the unused \<open>_startTime\<close>.
\<close>

definition parseRRuleString :: "env \<Rightarrow> string \<Rightarrow> string \<Rightarrow> fault + options option" where
  "parseRRuleString e rRuleString startTime =
     (if rRuleString = [] then Inr None
      else case dtstartMatch rRuleString of
        None \<Rightarrow> Inr None
      | Some dtstartMatch' \<Rightarrow>
          (case rruleMatch rRuleString of
             None \<Rightarrow> Inr None
           | Some rrulePart \<Rightarrow>
               (case dtstartOf (snd dtstartMatch') of
                  Inl f \<Rightarrow> Inl f
                | Inr startInTargetZone \<Rightarrow>
                    (case forEachPart (parsePart e)
                            \<lparr>freq = DAILY, interval = Num 1,
                             dtstart = toJSDate startInTargetZone, until = None,
                             wkst = Some MO, byweekday = None, bysetpos = None, count = None\<rparr>
                            (js_split CHR '';'' rrulePart) of
                       Inl f \<Rightarrow> Inl f
                     | Inr opts \<Rightarrow> Inr (Some opts)))))"

definition hook_parseRRuleString :: "env \<Rightarrow> string \<Rightarrow> string \<Rightarrow> fault + options option" where
  "hook_parseRRuleString e rRuleString startTime =
     (if rRuleString = [] then Inr None
      else case dtstartMatch rRuleString of
        None \<Rightarrow> Inr None
      | Some dtstartMatch' \<Rightarrow>
          (case rruleMatch rRuleString of
             None \<Rightarrow> Inr None
           | Some rrulePart \<Rightarrow>
               (case dtstartOf (snd dtstartMatch') of
                  Inl f \<Rightarrow> Inl f
                | Inr startInTargetZone \<Rightarrow>
                    (case forEachPart (hook_parsePart e)
                            \<lparr>freq = DAILY, interval = Num 1,
                             dtstart = toJSDate startInTargetZone, until = None,
                             wkst = Some MO, byweekday = None, bysetpos = None, count = None\<rparr>
                            (js_split CHR '';'' rrulePart) of
                       Inl f \<Rightarrow> Inl f
                     | Inr opts \<Rightarrow> Inr (Some opts)))))"

section \<open>The occurrence generators\<close>

text \<open>\<open>options.count || 1000\<close>: an absent, \<open>NaN\<close> or zero count gives the ceiling 1000.\<close>

definition maxCountOf :: "options \<Rightarrow> int" where
  "maxCountOf opts =
     (case count opts of
        None \<Rightarrow> 1000
      | Some n \<Rightarrow> (case n of NaN \<Rightarrow> 1000 | Num k \<Rightarrow> (if k = 0 then 1000 else k)))"

text \<open>
  The block every generator repeats for a date it emits: the date is moved to the target
  zone, the time of day of \<open>DateTime.fromISO(startTime)\<close> is written over it, and the
  result is printed.
\<close>

definition projectToZone :: "env \<Rightarrow> string \<Rightarrow> string \<Rightarrow> DateTime \<Rightarrow> fault + formatted" where
  "projectToZone e targetTimeZone startTime dt =
     (let dateInTargetZone = setZone e targetTimeZone dt;
          originalTime = fromISO e startTime
      in case setTime (offsetsOf e targetTimeZone) (dt_hour originalTime)
                (dt_minute originalTime) (dt_second originalTime) dateInTargetZone of
           Inl f \<Rightarrow> Inl f
         | Inr finalDateTime \<Rightarrow> Inr (toString finalDateTime))"

text \<open>\<open>currentDate.weekday === 7 ? 0 : currentDate.weekday\<close>.\<close>

definition currentWeekdayOf :: "DateTime \<Rightarrow> number" where
  "currentWeekdayOf dt = (if weekday dt = Num 7 then Num 0 else weekday dt)"

text \<open>\<open>options.byweekday.includes(currentWeekday)\<close>.\<close>

definition includesWeekday :: "Weekday list \<Rightarrow> number \<Rightarrow> bool" where
  "includesWeekday ws n = (\<exists>w \<in> set ws. Num (weekdayNum w) = n)"

text \<open>\<open>checkDate.weekday % 7 === targetWeekday\<close>; \<open>targetWeekday\<close> is \<open>undefined\<close>
  when \<open>byweekday\<close> is empty.\<close>

fun weekdayMatches :: "number \<Rightarrow> Weekday option \<Rightarrow> bool" where
  "weekdayMatches (Num w) (Some tw) = (w mod 7 = weekdayNum tw)"
| "weekdayMatches _ _ = False"

definition matchesTarget :: "DateTime \<Rightarrow> Weekday option \<Rightarrow> bool" where
  "matchesTarget dt target = weekdayMatches (weekday dt) target"

text \<open>The first element of an array, \<open>undefined\<close> when there is none. An \<open>undefined\<close>
  position compares like \<open>NaN\<close> in the two tests made on it.\<close>

definition firstWeekday :: "Weekday list \<Rightarrow> Weekday option" where
  "firstWeekday ws = (case ws of [] \<Rightarrow> None | w # _ \<Rightarrow> Some w)"

definition firstPos :: "number list \<Rightarrow> number" where
  "firstPos ps = (case ps of [] \<Rightarrow> NaN | p # _ \<Rightarrow> p)"

text \<open>The inner loop of the monthly generator: every day from \<open>checkDate\<close> up to
  \<open>monthEnd\<close>, keeping those on the target weekday.\<close>

function weekdayOccurrences_loop :: "Weekday option \<Rightarrow> DateTime \<Rightarrow> DateTime \<Rightarrow> DateTime list \<Rightarrow> DateTime list" where
  "weekdayOccurrences_loop targetWeekday monthEnd checkDate weekdayOccurrences =
     (if dt_le checkDate monthEnd then
        weekdayOccurrences_loop targetWeekday monthEnd (addDays 1 checkDate)
          (if matchesTarget checkDate targetWeekday then weekdayOccurrences @ [checkDate]
           else weekdayOccurrences)
      else weekdayOccurrences)"
  by pat_completeness auto
termination
  by (relation "measure (\<lambda>(targetWeekday, monthEnd, checkDate, acc).
        (case checkDate of Invalid \<Rightarrow> 0
         | DT t _ \<Rightarrow> (case monthEnd of Invalid \<Rightarrow> 0 | DT t' _ \<Rightarrow> nat (t' - t + 1))))")
     (auto simp: mkLocal_def elim!: dt_le.elims split: DateTime.splits)

declare weekdayOccurrences_loop.simps [simp del]

text \<open>The choice of the occurrence: the one at the 1-based position, the last one for
  position \<open>-1\<close>, otherwise none.\<close>

fun targetOccurrenceOf :: "number \<Rightarrow> DateTime list \<Rightarrow> DateTime option" where
  "targetOccurrenceOf NaN weekdayOccurrences = None"
| "targetOccurrenceOf (Num k) weekdayOccurrences =
     (if k > 0 \<and> k \<le> int (length weekdayOccurrences)
      then Some (weekdayOccurrences ! nat (k - 1))
      else if k = - 1 \<and> length weekdayOccurrences > 0
      then Some (weekdayOccurrences ! (length weekdayOccurrences - 1))
      else None)"

subsection \<open>The class \<open>TimezoneRRule\<close>: the until test is \<open>>\<close>\<close>

function generateDailyDates_loop :: "env \<Rightarrow> options \<Rightarrow> string \<Rightarrow> string \<Rightarrow> int \<Rightarrow> DateTime \<Rightarrow> int \<Rightarrow> formatted list \<Rightarrow> fault + formatted list" where
  "generateDailyDates_loop e opts targetTimeZone startTime maxCount currentDate cnt dates =
     (if cnt < maxCount then
        (if (case until opts of None \<Rightarrow> False | Some u \<Rightarrow> date_gt (toJSDate currentDate) u)
         then Inr dates
         else (case projectToZone e targetTimeZone startTime currentDate of
                 Inl f \<Rightarrow> Inl f
               | Inr str \<Rightarrow>
                   (case plusDays (interval opts) currentDate of
                      Inl f \<Rightarrow> Inl f
                    | Inr nxt \<Rightarrow>
                        generateDailyDates_loop e opts targetTimeZone startTime maxCount nxt
                          (cnt + 1) (dates @ [str]))))
      else Inr dates)"
  by pat_completeness auto
termination
  by (relation "measure (\<lambda>(e, opts, tz, st, maxCount, cur, cnt, dates). nat (maxCount - cnt))") auto

declare generateDailyDates_loop.simps [simp del]

definition generateDailyDates :: "env \<Rightarrow> options \<Rightarrow> string \<Rightarrow> string \<Rightarrow> fault + formatted list" where
  "generateDailyDates e opts targetTimeZone startTime =
     generateDailyDates_loop e opts targetTimeZone startTime (maxCountOf opts)
       (fromJSDate e (dtstart opts)) 0 []"

text \<open>The weekly generator has two loops: day by day when \<open>byweekday\<close> is given and
  not empty, week by week otherwise.\<close>

function generateWeeklyDates_byday_loop :: "env \<Rightarrow> options \<Rightarrow> Weekday list \<Rightarrow> string \<Rightarrow> string \<Rightarrow> int \<Rightarrow> DateTime \<Rightarrow> int \<Rightarrow> formatted list \<Rightarrow> fault + formatted list" where
  "generateWeeklyDates_byday_loop e opts ws targetTimeZone startTime maxCount currentDate cnt dates =
     (if cnt < maxCount then
        (if (case until opts of None \<Rightarrow> False | Some u \<Rightarrow> date_gt (toJSDate currentDate) u)
         then Inr dates
         else if includesWeekday ws (currentWeekdayOf currentDate) then
           (case projectToZone e targetTimeZone startTime currentDate of
              Inl f \<Rightarrow> Inl f
            | Inr str \<Rightarrow>
                generateWeeklyDates_byday_loop e opts ws targetTimeZone startTime maxCount
                  (addDays 1 currentDate) (cnt + 1) (dates @ [str]))
         else
           generateWeeklyDates_byday_loop e opts ws targetTimeZone startTime maxCount
             (addDays 1 currentDate) (cnt + 1) dates)
      else Inr dates)"
  by pat_completeness auto
termination
  by (relation "measure (\<lambda>(e, opts, ws, tz, st, maxCount, cur, cnt, dates). nat (maxCount - cnt))") auto

declare generateWeeklyDates_byday_loop.simps [simp del]

function generateWeeklyDates_flat_loop :: "env \<Rightarrow> options \<Rightarrow> string \<Rightarrow> string \<Rightarrow> int \<Rightarrow> DateTime \<Rightarrow> int \<Rightarrow> formatted list \<Rightarrow> fault + formatted list" where
  "generateWeeklyDates_flat_loop e opts targetTimeZone startTime maxCount currentDate cnt dates =
     (if cnt < maxCount then
        (if (case until opts of None \<Rightarrow> False | Some u \<Rightarrow> date_gt (toJSDate currentDate) u)
         then Inr dates
         else (case projectToZone e targetTimeZone startTime currentDate of
                 Inl f \<Rightarrow> Inl f
               | Inr str \<Rightarrow>
                   (case plusWeeks (interval opts) currentDate of
                      Inl f \<Rightarrow> Inl f
                    | Inr nxt \<Rightarrow>
                        generateWeeklyDates_flat_loop e opts targetTimeZone startTime maxCount nxt
                          (cnt + 1) (dates @ [str]))))
      else Inr dates)"
  by pat_completeness auto
termination
  by (relation "measure (\<lambda>(e, opts, tz, st, maxCount, cur, cnt, dates). nat (maxCount - cnt))") auto

declare generateWeeklyDates_flat_loop.simps [simp del]

definition generateWeeklyDates :: "env \<Rightarrow> options \<Rightarrow> string \<Rightarrow> string \<Rightarrow> fault + formatted list" where
  "generateWeeklyDates e opts targetTimeZone startTime =
     (case byweekday opts of
        None \<Rightarrow>
          generateWeeklyDates_flat_loop e opts targetTimeZone startTime (maxCountOf opts)
            (fromJSDate e (dtstart opts)) 0 []
      | Some ws \<Rightarrow>
          (if length ws > 0 then
             generateWeeklyDates_byday_loop e opts ws targetTimeZone startTime (maxCountOf opts)
               (fromJSDate e (dtstart opts)) 0 []
           else
             generateWeeklyDates_flat_loop e opts targetTimeZone startTime (maxCountOf opts)
               (fromJSDate e (dtstart opts)) 0 []))"

text \<open>What one round of the monthly loop pushes: with \<open>byweekday\<close> and \<open>bysetpos\<close>
  both given, the chosen weekday of the month of \<open>currentDate\<close>, if there is one;
  otherwise \<open>currentDate\<close> itself.\<close>

definition monthlyEmit :: "env \<Rightarrow> options \<Rightarrow> string \<Rightarrow> string \<Rightarrow> DateTime \<Rightarrow> fault + formatted list" where
  "monthlyEmit e opts targetTimeZone startTime currentDate =
     (case byweekday opts of
        None \<Rightarrow>
          (case projectToZone e targetTimeZone startTime currentDate of
             Inl f \<Rightarrow> Inl f | Inr str \<Rightarrow> Inr [str])
      | Some ws \<Rightarrow>
          (case bysetpos opts of
             None \<Rightarrow>
               (case projectToZone e targetTimeZone startTime currentDate of
                  Inl f \<Rightarrow> Inl f | Inr str \<Rightarrow> Inr [str])
           | Some ps \<Rightarrow>
               (let targetWeekday = firstWeekday ws;
                    occurrence = firstPos ps;
                    monthStart = startOfMonth currentDate;
                    monthEnd = endOfMonth currentDate;
                    weekdayOccurrences = weekdayOccurrences_loop targetWeekday monthEnd monthStart []
                in case targetOccurrenceOf occurrence weekdayOccurrences of
                     None \<Rightarrow> Inr []
                   | Some targetOccurrence \<Rightarrow>
                       (case projectToZone e targetTimeZone startTime targetOccurrence of
                          Inl f \<Rightarrow> Inl f | Inr str \<Rightarrow> Inr [str]))))"

function generateMonthlyDates_loop :: "env \<Rightarrow> options \<Rightarrow> string \<Rightarrow> string \<Rightarrow> int \<Rightarrow> DateTime \<Rightarrow> int \<Rightarrow> formatted list \<Rightarrow> fault + formatted list" where
  "generateMonthlyDates_loop e opts targetTimeZone startTime maxCount currentDate cnt dates =
     (if cnt < maxCount then
        (if (case until opts of None \<Rightarrow> False | Some u \<Rightarrow> date_gt (toJSDate currentDate) u)
         then Inr dates
         else (case monthlyEmit e opts targetTimeZone startTime currentDate of
                 Inl f \<Rightarrow> Inl f
               | Inr strs \<Rightarrow>
                   (case plusMonths (interval opts) currentDate of
                      Inl f \<Rightarrow> Inl f
                    | Inr nxt \<Rightarrow>
                        generateMonthlyDates_loop e opts targetTimeZone startTime maxCount nxt
                          (cnt + 1) (dates @ strs))))
      else Inr dates)"
  by pat_completeness auto
termination
  by (relation "measure (\<lambda>(e, opts, tz, st, maxCount, cur, cnt, dates). nat (maxCount - cnt))") auto

declare generateMonthlyDates_loop.simps [simp del]

definition generateMonthlyDates :: "env \<Rightarrow> options \<Rightarrow> string \<Rightarrow> string \<Rightarrow> fault + formatted list" where
  "generateMonthlyDates e opts targetTimeZone startTime =
     generateMonthlyDates_loop e opts targetTimeZone startTime (maxCountOf opts)
       (fromJSDate e (dtstart opts)) 0 []"

function generateYearlyDates_loop :: "env \<Rightarrow> options \<Rightarrow> string \<Rightarrow> string \<Rightarrow> int \<Rightarrow> DateTime \<Rightarrow> int \<Rightarrow> formatted list \<Rightarrow> fault + formatted list" where
  "generateYearlyDates_loop e opts targetTimeZone startTime maxCount currentDate cnt dates =
     (if cnt < maxCount then
        (if (case until opts of None \<Rightarrow> False | Some u \<Rightarrow> date_gt (toJSDate currentDate) u)
         then Inr dates
         else (case projectToZone e targetTimeZone startTime currentDate of
                 Inl f \<Rightarrow> Inl f
               | Inr str \<Rightarrow>
                   (case plusYears (interval opts) currentDate of
                      Inl f \<Rightarrow> Inl f
                    | Inr nxt \<Rightarrow>
                        generateYearlyDates_loop e opts targetTimeZone startTime maxCount nxt
                          (cnt + 1) (dates @ [str]))))
      else Inr dates)"
  by pat_completeness auto
termination
  by (relation "measure (\<lambda>(e, opts, tz, st, maxCount, cur, cnt, dates). nat (maxCount - cnt))") auto

declare generateYearlyDates_loop.simps [simp del]

definition generateYearlyDates :: "env \<Rightarrow> options \<Rightarrow> string \<Rightarrow> string \<Rightarrow> fault + formatted list" where
  "generateYearlyDates e opts targetTimeZone startTime =
     generateYearlyDates_loop e opts targetTimeZone startTime (maxCountOf opts)
       (fromJSDate e (dtstart opts)) 0 []"

text \<open>\<open>TimezoneRRule.getDatesWithCustomTimezone\<close>: an empty text and a \<open>null\<close> parse give the empty array.\<close>

definition getDatesWithCustomTimezone :: "env \<Rightarrow> string \<Rightarrow> string \<Rightarrow> string \<Rightarrow> fault + formatted list" where
  "getDatesWithCustomTimezone e rRuleString targetTimeZone startTime =
     (if rRuleString = [] then Inr []
      else case parseRRuleString e rRuleString startTime of
        Inl f \<Rightarrow> Inl f
      | Inr None \<Rightarrow> Inr []
      | Inr (Some opts) \<Rightarrow>
          (case freq opts of
             DAILY \<Rightarrow> generateDailyDates e opts targetTimeZone startTime
           | WEEKLY \<Rightarrow> generateWeeklyDates e opts targetTimeZone startTime
           | MONTHLY \<Rightarrow> generateMonthlyDates e opts targetTimeZone startTime
           | YEARLY \<Rightarrow> generateYearlyDates e opts targetTimeZone startTime))"

subsection \<open>The closure of the hook: the until test is \<open>>=\<close>\<close>

function hook_generateDailyDates_loop :: "env \<Rightarrow> options \<Rightarrow> string \<Rightarrow> string \<Rightarrow> int \<Rightarrow> DateTime \<Rightarrow> int \<Rightarrow> formatted list \<Rightarrow> fault + formatted list" where
  "hook_generateDailyDates_loop e opts targetTimeZone startTime maxCount currentDate cnt dates =
     (if cnt < maxCount then
        (if (case until opts of None \<Rightarrow> False | Some u \<Rightarrow> date_ge (toJSDate currentDate) u)
         then Inr dates
         else (case projectToZone e targetTimeZone startTime currentDate of
                 Inl f \<Rightarrow> Inl f
               | Inr str \<Rightarrow>
                   (case plusDays (interval opts) currentDate of
                      Inl f \<Rightarrow> Inl f
                    | Inr nxt \<Rightarrow>
                        hook_generateDailyDates_loop e opts targetTimeZone startTime maxCount nxt
                          (cnt + 1) (dates @ [str]))))
      else Inr dates)"
  by pat_completeness auto
termination
  by (relation "measure (\<lambda>(e, opts, tz, st, maxCount, cur, cnt, dates). nat (maxCount - cnt))") auto

declare hook_generateDailyDates_loop.simps [simp del]

definition hook_generateDailyDates :: "env \<Rightarrow> options \<Rightarrow> string \<Rightarrow> string \<Rightarrow> fault + formatted list" where
  "hook_generateDailyDates e opts targetTimeZone startTime =
     hook_generateDailyDates_loop e opts targetTimeZone startTime (maxCountOf opts)
       (fromJSDate e (dtstart opts)) 0 []"

text \<open>The weekly generator has two loops: day by day when \<open>byweekday\<close> is given and
  not empty, week by week otherwise.\<close>

function hook_generateWeeklyDates_byday_loop :: "env \<Rightarrow> options \<Rightarrow> Weekday list \<Rightarrow> string \<Rightarrow> string \<Rightarrow> int \<Rightarrow> DateTime \<Rightarrow> int \<Rightarrow> formatted list \<Rightarrow> fault + formatted list" where
  "hook_generateWeeklyDates_byday_loop e opts ws targetTimeZone startTime maxCount currentDate cnt dates =
     (if cnt < maxCount then
        (if (case until opts of None \<Rightarrow> False | Some u \<Rightarrow> date_ge (toJSDate currentDate) u)
         then Inr dates
         else if includesWeekday ws (currentWeekdayOf currentDate) then
           (case projectToZone e targetTimeZone startTime currentDate of
              Inl f \<Rightarrow> Inl f
            | Inr str \<Rightarrow>
                hook_generateWeeklyDates_byday_loop e opts ws targetTimeZone startTime maxCount
                  (addDays 1 currentDate) (cnt + 1) (dates @ [str]))
         else
           hook_generateWeeklyDates_byday_loop e opts ws targetTimeZone startTime maxCount
             (addDays 1 currentDate) (cnt + 1) dates)
      else Inr dates)"
  by pat_completeness auto
termination
  by (relation "measure (\<lambda>(e, opts, ws, tz, st, maxCount, cur, cnt, dates). nat (maxCount - cnt))") auto

declare hook_generateWeeklyDates_byday_loop.simps [simp del]

function hook_generateWeeklyDates_flat_loop :: "env \<Rightarrow> options \<Rightarrow> string \<Rightarrow> string \<Rightarrow> int \<Rightarrow> DateTime \<Rightarrow> int \<Rightarrow> formatted list \<Rightarrow> fault + formatted list" where
  "hook_generateWeeklyDates_flat_loop e opts targetTimeZone startTime maxCount currentDate cnt dates =
     (if cnt < maxCount then
        (if (case until opts of None \<Rightarrow> False | Some u \<Rightarrow> date_ge (toJSDate currentDate) u)
         then Inr dates
         else (case projectToZone e targetTimeZone startTime currentDate of
                 Inl f \<Rightarrow> Inl f
               | Inr str \<Rightarrow>
                   (case plusWeeks (interval opts) currentDate of
                      Inl f \<Rightarrow> Inl f
                    | Inr nxt \<Rightarrow>
                        hook_generateWeeklyDates_flat_loop e opts targetTimeZone startTime maxCount nxt
                          (cnt + 1) (dates @ [str]))))
      else Inr dates)"
  by pat_completeness auto
termination
  by (relation "measure (\<lambda>(e, opts, tz, st, maxCount, cur, cnt, dates). nat (maxCount - cnt))") auto

declare hook_generateWeeklyDates_flat_loop.simps [simp del]

definition hook_generateWeeklyDates :: "env \<Rightarrow> options \<Rightarrow> string \<Rightarrow> string \<Rightarrow> fault + formatted list" where
  "hook_generateWeeklyDates e opts targetTimeZone startTime =
     (case byweekday opts of
        None \<Rightarrow>
          hook_generateWeeklyDates_flat_loop e opts targetTimeZone startTime (maxCountOf opts)
            (fromJSDate e (dtstart opts)) 0 []
      | Some ws \<Rightarrow>
          (if length ws > 0 then
             hook_generateWeeklyDates_byday_loop e opts ws targetTimeZone startTime (maxCountOf opts)
               (fromJSDate e (dtstart opts)) 0 []
           else
             hook_generateWeeklyDates_flat_loop e opts targetTimeZone startTime (maxCountOf opts)
               (fromJSDate e (dtstart opts)) 0 []))"

text \<open>What one round of the monthly loop pushes: with \<open>byweekday\<close> and \<open>bysetpos\<close>
  both given, the chosen weekday of the month of \<open>currentDate\<close>, if there is one;
  otherwise \<open>currentDate\<close> itself.\<close>

definition hook_monthlyEmit :: "env \<Rightarrow> options \<Rightarrow> string \<Rightarrow> string \<Rightarrow> DateTime \<Rightarrow> fault + formatted list" where
  "hook_monthlyEmit e opts targetTimeZone startTime currentDate =
     (case byweekday opts of
        None \<Rightarrow>
          (case projectToZone e targetTimeZone startTime currentDate of
             Inl f \<Rightarrow> Inl f | Inr str \<Rightarrow> Inr [str])
      | Some ws \<Rightarrow>
          (case bysetpos opts of
             None \<Rightarrow>
               (case projectToZone e targetTimeZone startTime currentDate of
                  Inl f \<Rightarrow> Inl f | Inr str \<Rightarrow> Inr [str])
           | Some ps \<Rightarrow>
               (let targetWeekday = firstWeekday ws;
                    occurrence = firstPos ps;
                    monthStart = startOfMonth currentDate;
                    monthEnd = endOfMonth currentDate;
                    weekdayOccurrences = weekdayOccurrences_loop targetWeekday monthEnd monthStart []
                in case targetOccurrenceOf occurrence weekdayOccurrences of
                     None \<Rightarrow> Inr []
                   | Some targetOccurrence \<Rightarrow>
                       (case projectToZone e targetTimeZone startTime targetOccurrence of
                          Inl f \<Rightarrow> Inl f | Inr str \<Rightarrow> Inr [str]))))"

function hook_generateMonthlyDates_loop :: "env \<Rightarrow> options \<Rightarrow> string \<Rightarrow> string \<Rightarrow> int \<Rightarrow> DateTime \<Rightarrow> int \<Rightarrow> formatted list \<Rightarrow> fault + formatted list" where
  "hook_generateMonthlyDates_loop e opts targetTimeZone startTime maxCount currentDate cnt dates =
     (if cnt < maxCount then
        (if (case until opts of None \<Rightarrow> False | Some u \<Rightarrow> date_ge (toJSDate currentDate) u)
         then Inr dates
         else (case hook_monthlyEmit e opts targetTimeZone startTime currentDate of
                 Inl f \<Rightarrow> Inl f
               | Inr strs \<Rightarrow>
                   (case plusMonths (interval opts) currentDate of
                      Inl f \<Rightarrow> Inl f
                    | Inr nxt \<Rightarrow>
                        hook_generateMonthlyDates_loop e opts targetTimeZone startTime maxCount nxt
                          (cnt + 1) (dates @ strs))))
      else Inr dates)"
  by pat_completeness auto
termination
  by (relation "measure (\<lambda>(e, opts, tz, st, maxCount, cur, cnt, dates). nat (maxCount - cnt))") auto

declare hook_generateMonthlyDates_loop.simps [simp del]

definition hook_generateMonthlyDates :: "env \<Rightarrow> options \<Rightarrow> string \<Rightarrow> string \<Rightarrow> fault + formatted list" where
  "hook_generateMonthlyDates e opts targetTimeZone startTime =
     hook_generateMonthlyDates_loop e opts targetTimeZone startTime (maxCountOf opts)
       (fromJSDate e (dtstart opts)) 0 []"

function hook_generateYearlyDates_loop :: "env \<Rightarrow> options \<Rightarrow> string \<Rightarrow> string \<Rightarrow> int \<Rightarrow> DateTime \<Rightarrow> int \<Rightarrow> formatted list \<Rightarrow> fault + formatted list" where
  "hook_generateYearlyDates_loop e opts targetTimeZone startTime maxCount currentDate cnt dates =
     (if cnt < maxCount then
        (if (case until opts of None \<Rightarrow> False | Some u \<Rightarrow> date_ge (toJSDate currentDate) u)
         then Inr dates
         else (case projectToZone e targetTimeZone startTime currentDate of
                 Inl f \<Rightarrow> Inl f
               | Inr str \<Rightarrow>
                   (case plusYears (interval opts) currentDate of
                      Inl f \<Rightarrow> Inl f
                    | Inr nxt \<Rightarrow>
                        hook_generateYearlyDates_loop e opts targetTimeZone startTime maxCount nxt
                          (cnt + 1) (dates @ [str]))))
      else Inr dates)"
  by pat_completeness auto
termination
  by (relation "measure (\<lambda>(e, opts, tz, st, maxCount, cur, cnt, dates). nat (maxCount - cnt))") auto

declare hook_generateYearlyDates_loop.simps [simp del]

definition hook_generateYearlyDates :: "env \<Rightarrow> options \<Rightarrow> string \<Rightarrow> string \<Rightarrow> fault + formatted list" where
  "hook_generateYearlyDates e opts targetTimeZone startTime =
     hook_generateYearlyDates_loop e opts targetTimeZone startTime (maxCountOf opts)
       (fromJSDate e (dtstart opts)) 0 []"

text \<open>The \<open>hook_getDatesWithCustomTimezone\<close> the hook returns.\<close>

definition hook_getDatesWithCustomTimezone :: "env \<Rightarrow> string \<Rightarrow> string \<Rightarrow> string \<Rightarrow> fault + formatted list" where
  "hook_getDatesWithCustomTimezone e rRuleString targetTimeZone startTime =
     (if rRuleString = [] then Inr []
      else case hook_parseRRuleString e rRuleString startTime of
        Inl f \<Rightarrow> Inl f
      | Inr None \<Rightarrow> Inr []
      | Inr (Some opts) \<Rightarrow>
          (case freq opts of
             DAILY \<Rightarrow> hook_generateDailyDates e opts targetTimeZone startTime
           | WEEKLY \<Rightarrow> hook_generateWeeklyDates e opts targetTimeZone startTime
           | MONTHLY \<Rightarrow> hook_generateMonthlyDates e opts targetTimeZone startTime
           | YEARLY \<Rightarrow> hook_generateYearlyDates e opts targetTimeZone startTime))"


section \<open>Notions of the specification\<close>

text \<open>
  The text holds a start declaration: somewhere in it the literal \<open>DTSTART;TZID=\<close>, a
  zone identifier of at least one character and without a colon, a colon, and eight
  digits, \<open>T\<close>, six digits.
\<close>

definition hasStartLine :: "string \<Rightarrow> bool" where
  "hasStartLine s =
     (\<exists>pre z d post. s = pre @ ''DTSTART;TZID='' @ z @ '':'' @ d @ post
        \<and> z \<noteq> [] \<and> CHR '':'' \<notin> set z \<and> isStamp d)"

text \<open>The text holds a recurrence declaration: \<open>RRULE:\<close> and at least one more character
  on the same line.\<close>

definition hasRecurrenceLine :: "string \<Rightarrow> bool" where
  "hasRecurrenceLine s = (\<exists>pre c post. s = pre @ ''RRULE:'' @ c # post \<and> \<not> isLineTerminator c)"

text \<open>
  The environment of the examples. The system zone is four hours behind UTC. London is
  an hour ahead of UTC from 2024-03-31T01:00Z to 2024-10-27T01:00Z and from
  2025-03-30T01:00Z to 2025-10-26T01:00Z; New York is four hours behind UTC from
  2024-03-10T07:00Z to 2024-11-03T06:00Z and from 2025-03-09T07:00Z to
  2025-11-02T06:00Z, and five hours behind otherwise. No reference text of another
  form than \<open>YYYY-MM-DDTHH:MM:SS\<close> is supported.
\<close>

definition exampleZones :: "string \<Rightarrow> (int \<Rightarrow> int) option" where
  "exampleZones z =
     (if z = ''Europe/London'' then
        Some (\<lambda>t. if (1711846800000 \<le> t \<and> t < 1729990800000)
                       \<or> (1743296400000 \<le> t \<and> t < 1761440400000) then 60 else 0)
      else if z = ''America/New_York'' then
        Some (\<lambda>t. if (1710054000000 \<le> t \<and> t < 1730613600000)
                       \<or> (1741503600000 \<le> t \<and> t < 1762063200000) then - 240 else - 300)
      else if z = ''UTC'' then Some (\<lambda>t. 0)
      else None)"

definition exampleEnv :: env where
  "exampleEnv = \<lparr>sysOffset = - 240, zoneOffset = exampleZones, parseISO = (\<lambda>s. None)\<rparr>"

text \<open>The recurrence declaration holds an \<open>UNTIL\<close> key: the text after \<open>RRULE:\<close> on its
  line has a \<open>;\<close>-separated part whose key is \<open>UNTIL\<close>.\<close>

definition hasUntilKey :: "string \<Rightarrow> bool" where
  "hasUntilKey s =
     (case rruleMatch s of
        None \<Rightarrow> False
      | Some rrulePart \<Rightarrow> (\<exists>part \<in> set (js_split CHR '';'' rrulePart). keyOf part = ''UNTIL''))"

text \<open>The rule texts of the test suite: the start declaration, then a recurrence line.\<close>

definition exampleStart :: string where
  "exampleStart = ''DTSTART;TZID=America/New_York:20240929T044500'' @ [CHR 0x0A]"

definition exampleDaily :: string where
  "exampleDaily = exampleStart @ ''RRULE:FREQ=DAILY;INTERVAL=1;COUNT=3''"

definition exampleWeekly :: string where
  "exampleWeekly = exampleStart @ ''RRULE:FREQ=WEEKLY;BYDAY=MO,WE,FR;COUNT=3''"

text \<open>The weekday of a date, 0 for Sunday to 6 for Saturday (1970-01-01 was a Thursday).\<close>

fun dayOfWeek :: "DateTime \<Rightarrow> int option" where
  "dayOfWeek Invalid = None"
| "dayOfWeek (DT t off) = Some (((t + off * msPerMinute) div msPerDay + 4) mod 7)"

text \<open>Every date from \<open>monthStart\<close> to \<open>monthEnd\<close>: \<open>monthStart\<close> and the days after it, as
  long as they are not after \<open>monthEnd\<close>.\<close>

fun daysBetween :: "DateTime \<Rightarrow> DateTime \<Rightarrow> DateTime list" where
  "daysBetween (DT t0 off) (DT t1 off1) =
     map (\<lambda>k. DT (t0 + int k * msPerDay) off) [0 ..< nat ((t1 - t0) div msPerDay + 1)]"
| "daysBetween _ _ = []"

text \<open>The dates of the month that holds the cursor.\<close>

definition monthDates :: "DateTime \<Rightarrow> DateTime list" where
  "monthDates cur = daysBetween (startOfMonth cur) (endOfMonth cur)"

text \<open>The element at a 1-based position, the last element for position \<open>-1\<close>, nothing
  when the position is out of range.\<close>

fun nthOrLast :: "number \<Rightarrow> 'a list \<Rightarrow> 'a option" where
  "nthOrLast NaN candidates = None"
| "nthOrLast (Num p) candidates =
     (if 1 \<le> p \<and> p \<le> int (length candidates) then Some (candidates ! nat (p - 1))
      else if p = - 1 \<and> candidates \<noteq> [] then Some (last candidates)
      else None)"

text \<open>The Nth (or last) date of the month of the cursor that falls on the weekday.\<close>

definition nthWeekdayOfMonth :: "Weekday \<Rightarrow> number \<Rightarrow> DateTime \<Rightarrow> DateTime option" where
  "nthWeekdayOfMonth w pos cur =
     nthOrLast pos (filter (\<lambda>d. dayOfWeek d = Some (weekdayNum w)) (monthDates cur))"

text \<open>An emitted text shows the time of day \<open>h:mi:s\<close>. The marker \<open>Invalid DateTime\<close>
  shows no time.\<close>

definition showsTime :: "formatted \<Rightarrow> int \<Rightarrow> int \<Rightarrow> int \<Rightarrow> bool" where
  "showsTime str h mi s =
     (case str of
        InvalidDateTime \<Rightarrow> False
      | ISO c off \<Rightarrow> hour c = h \<and> minute c = mi \<and> second c = s)"

text \<open>More rule texts: an interval that is no number, an \<open>UNTIL\<close> date, a start in a
  month 13, and the daily rule with another zone identifier.\<close>

definition exampleBadInterval :: string where
  "exampleBadInterval = exampleStart @ ''RRULE:FREQ=DAILY;INTERVAL=abc;COUNT=3''"

definition exampleUntil :: string where
  "exampleUntil = exampleStart @ ''RRULE:FREQ=DAILY;UNTIL=20241231T000000''"

definition exampleBadMonth :: string where
  "exampleBadMonth = ''DTSTART;TZID=America/New_York:20241329T044500'' @ [CHR 0x0A]
                     @ ''RRULE:FREQ=DAILY;COUNT=3''"




text \<open>A system zone that is UTC; a daily rule whose second date is its \<open>UNTIL\<close> instant;
  a monthly rule asking for a sixth Monday.\<close>

definition utcEnv :: env where
  "utcEnv = \<lparr>sysOffset = 0, zoneOffset = exampleZones, parseISO = (\<lambda>s. None)\<rparr>"

definition exampleBoundary :: string where
  "exampleBoundary = ''DTSTART;TZID=America/New_York:20240929T044559'' @ [CHR 0x0A]
                     @ ''RRULE:FREQ=DAILY;UNTIL=20240930T044559''"

definition exampleSixthMonday :: string where
  "exampleSixthMonday = exampleStart @ ''RRULE:FREQ=MONTHLY;BYDAY=MO;BYSETPOS=6;COUNT=2''"

text \<open>The weekly rule of the testable properties, starting on a Monday, and a monthly
  rule asking for a fifth Monday, with the options it parses to.\<close>

definition exampleWeeklyMonday :: string where
  "exampleWeeklyMonday = ''DTSTART;TZID=America/New_York:20240930T044500'' @ [CHR 0x0A]
                         @ ''RRULE:FREQ=WEEKLY;BYDAY=MO,WE,FR;COUNT=3''"

definition exampleFifthMonday :: string where
  "exampleFifthMonday = exampleStart @ ''RRULE:FREQ=MONTHLY;BYDAY=MO;BYSETPOS=5;COUNT=3''"

definition exampleFifthMondayOpts :: options where
  "exampleFifthMondayOpts =
     \<lparr>freq = MONTHLY, interval = Num 1, dtstart = Date 1727585100000, until = None,
      wkst = Some MO, byweekday = Some [MO], bysetpos = Some [Num 5], count = Some (Num 3)\<rparr>"

text \<open>
  The dates a generator visits: at most \<open>n\<close> dates, the first one \<open>cur\<close> and each next one
  obtained from the one before by \<open>step\<close>, up to the first date that lies after \<open>until\<close>.
\<close>

definition pastUntil :: "options \<Rightarrow> DateTime \<Rightarrow> bool" where
  "pastUntil opts cur = (case until opts of None \<Rightarrow> False | Some u \<Rightarrow> date_gt (toJSDate cur) u)"

fun cursors :: "options \<Rightarrow> (DateTime \<Rightarrow> DateTime) \<Rightarrow> nat \<Rightarrow> DateTime \<Rightarrow> DateTime list" where
  "cursors opts step 0 cur = []"
| "cursors opts step (Suc n) cur =
     (if pastUntil opts cur then [] else cur # cursors opts step n (step cur))"

text \<open>A date moved by an amount of days, weeks, months or years. An amount that is no
  number moves no date: the generator faults on it, unless the date is invalid already.\<close>

fun moved :: "(int \<Rightarrow> DateTime \<Rightarrow> DateTime) \<Rightarrow> number \<Rightarrow> DateTime \<Rightarrow> DateTime" where
  "moved add NaN cur = Invalid"
| "moved add (Num k) cur = add k cur"

definition addWeeks :: "int \<Rightarrow> DateTime \<Rightarrow> DateTime" where
  "addWeeks k cur = addDays (k * 7) cur"

text \<open>The date falls on one of the weekdays.\<close>

definition onWeekdays :: "Weekday list \<Rightarrow> DateTime \<Rightarrow> bool" where
  "onWeekdays ws d = (case dayOfWeek d of None \<Rightarrow> False | Some k \<Rightarrow> k \<in> weekdayNum ` set ws)"

text \<open>
  The occurrences of a rule, before they are projected to the target zone. Daily, weekly
  without weekdays, monthly and yearly rules emit the dates they visit; a weekly rule with
  weekdays visits day after day and emits the days that fall on one of them; a monthly
  rule with weekdays and positions emits, for each month it visits, the date of that
  month on the first weekday at the first position, if there is one.
\<close>

definition occurrencesOf :: "env \<Rightarrow> options \<Rightarrow> DateTime list" where
  "occurrencesOf e opts =
     (let start = fromJSDate e (dtstart opts); n = nat (maxCountOf opts)
      in case freq opts of
           DAILY \<Rightarrow> cursors opts (moved addDays (interval opts)) n start
         | WEEKLY \<Rightarrow>
             (case byweekday opts of
                Some (w # ws) \<Rightarrow> filter (onWeekdays (w # ws)) (cursors opts (addDays 1) n start)
              | _ \<Rightarrow> cursors opts (moved addWeeks (interval opts)) n start)
         | MONTHLY \<Rightarrow>
             (case (byweekday opts, bysetpos opts) of
                (Some ws, Some ps) \<Rightarrow>
                  (case (ws, ps) of
                     (w # _, pos # _) \<Rightarrow>
                       List.map_filter (nthWeekdayOfMonth w pos)
                         (cursors opts (moved addMonths (interval opts)) n start)
                   | _ \<Rightarrow> [])
              | _ \<Rightarrow> cursors opts (moved addMonths (interval opts)) n start)
         | YEARLY \<Rightarrow> cursors opts (moved addYears (interval opts)) n start)"

text \<open>The occurrence of one month a monthly rule visits: the date on the first weekday
  at the first position when weekdays and positions are given, if the month has one;
  the visited date itself otherwise.\<close>

definition monthlyOccurrence :: "options \<Rightarrow> DateTime \<Rightarrow> DateTime list" where
  "monthlyOccurrence opts cur =
     (case (byweekday opts, bysetpos opts) of
        (Some ws, Some ps) \<Rightarrow>
          (case (ws, ps) of
             (w # _, pos # _) \<Rightarrow> (case nthWeekdayOfMonth w pos cur of None \<Rightarrow> [] | Some d \<Rightarrow> [d])
           | _ \<Rightarrow> [])
      | _ \<Rightarrow> [cur])"

text \<open>The decimal text of a number: a digit, two digits, four digits.\<close>

definition digitChar :: "int \<Rightarrow> char" where
  "digitChar n = ''0123456789'' ! nat n"

definition twoDigits :: "int \<Rightarrow> string" where
  "twoDigits n = [digitChar (n div 10), digitChar (n mod 10)]"

definition fourDigits :: "int \<Rightarrow> string" where
  "fourDigits n = twoDigits (n div 100) @ twoDigits (n mod 100)"










text \<open>The reference text \<open>YYYY-MM-DDTHH:MM:SS\<close> that writes six civil fields.\<close>

definition civilText :: "civil \<Rightarrow> string" where
  "civilText c = fourDigits (year c) @ ''-'' @ twoDigits (month c) @ ''-'' @ twoDigits (day c)
                 @ ''T'' @ twoDigits (hour c) @ '':'' @ twoDigits (minute c) @ '':''
                 @ twoDigits (second c)"

text \<open>
  A local time \<open>l\<close> falls into a gap of a zone, coming from the offset \<open>off\<close>: at the instant
  \<open>l\<close> denotes under \<open>off\<close> the zone has another offset, and at the instant \<open>l\<close> denotes
  under that one it has yet another, so that no reading of \<open>l\<close> agrees with the zone.
\<close>

definition inGap :: "(int \<Rightarrow> int) \<Rightarrow> int \<Rightarrow> int \<Rightarrow> bool" where
  "inGap f l off =
     (f (l - off * msPerMinute) \<noteq> off
      \<and> f (l - f (l - off * msPerMinute) * msPerMinute) \<noteq> f (l - off * msPerMinute))"

text \<open>
  The text of an occurrence projected to a zone and pinned to the time of day \<open>h:mi:s\<close>.
  An occurrence that is no date-time, an unsupported zone (no offsets) and civil fields
  outside the representable range give the marker \<open>Invalid DateTime\<close>. Otherwise the text
  shows \<open>h:mi:s\<close>, unless the pinned local time falls into a gap of the zone.
\<close>

definition projects :: "(int \<Rightarrow> int) option \<Rightarrow> int \<Rightarrow> int \<Rightarrow> int \<Rightarrow> DateTime \<Rightarrow> formatted \<Rightarrow> bool" where
  "projects zone h mi s occ str =
     (case occ of
        Invalid \<Rightarrow> str = InvalidDateTime
      | DT t off \<Rightarrow>
          (case zone of
             None \<Rightarrow> str = InvalidDateTime
           | Some f \<Rightarrow>
               (if \<bar>t + f t * msPerMinute\<bar> > maxTime
                   \<or> \<bar>pinnedLocal (t + f t * msPerMinute) h mi s\<bar> > maxTime
                then str = InvalidDateTime
                else inGap f (pinnedLocal (t + f t * msPerMinute) h mi s) (f t)
                     \<or> showsTime str h mi s)))"

section \<open>Properties\<close>

subsection \<open>The regular expressions find what they describe\<close>

lemma dtstartAt_SomeD:
  assumes "dtstartAt s = Some (z, d)"
  shows "\<exists>post. s = ''DTSTART;TZID='' @ z @ '':'' @ d @ post" and "z \<noteq> []"
    and "CHR '':'' \<notin> set z" and "isStamp d"
proof -
  let ?r = "drop 13 s"
  let ?r' = "dropWhile (\<lambda>c. c \<noteq> CHR '':'') ?r"
  from assms have pre: "take 13 s = ''DTSTART;TZID=''"
    by (auto simp: dtstartAt_def split: if_splits)
  from assms pre have z: "z = takeWhile (\<lambda>c. c \<noteq> CHR '':'') ?r" and zne: "z \<noteq> []"
    and r'ne: "?r' \<noteq> []" and d: "d = take 15 (tl ?r')" and st: "isStamp d"
    by (auto simp: dtstartAt_def zoneAndStamp_def Let_def split: if_splits)
  show "z \<noteq> []" by (rule zne)
  show "isStamp d" by (rule st)
  show "CHR '':'' \<notin> set z" unfolding z by (auto dest: set_takeWhileD)
  from r'ne have "hd ?r' = CHR '':''" using hd_dropWhile[of "\<lambda>c. c \<noteq> CHR '':''" ?r] by auto
  with r'ne have r': "?r' = CHR '':'' # tl ?r'" by (cases ?r') auto
  have "s = take 13 s @ ?r" by simp
  also have "?r = z @ ?r'" unfolding z by simp
  also have "?r' = '':'' @ tl ?r'" using r' by simp
  also have "tl ?r' = d @ drop 15 (tl ?r')" unfolding d by simp
  finally show "\<exists>post. s = ''DTSTART;TZID='' @ z @ '':'' @ d @ post"
    using pre by metis
qed

lemma zoneAndStamp_intro:
  assumes "z \<noteq> []" "CHR '':'' \<notin> set z" "isStamp d"
  shows "zoneAndStamp (z @ '':'' @ d @ post) = Some (z, d)"
proof -
  have tw: "takeWhile (\<lambda>c. c \<noteq> CHR '':'') (z @ CHR '':'' # d @ post) = z"
    using assms(2) by (induction z) auto
  have dw: "dropWhile (\<lambda>c. c \<noteq> CHR '':'') (z @ CHR '':'' # d @ post) = CHR '':'' # d @ post"
    using assms(2) by (induction z) auto
  have len: "length d = 15" using assms(3) by (simp add: isStamp_def)
  show ?thesis
    using assms(1,3) len by (simp add: zoneAndStamp_def tw dw)
qed

lemma dtstartAt_intro:
  assumes "z \<noteq> []" "CHR '':'' \<notin> set z" "isStamp d"
  shows "dtstartAt (''DTSTART;TZID='' @ z @ '':'' @ d @ post) = Some (z, d)"
  using zoneAndStamp_intro[OF assms, of post] by (simp add: dtstartAt_def)

lemma dtstartMatch_append: "dtstartAt t \<noteq> None \<Longrightarrow> dtstartMatch (pre @ t) \<noteq> None"
proof (induction pre)
  case Nil
  then show ?case by (cases t) auto
next
  case (Cons c cs)
  then show ?case by (cases "dtstartAt (c # cs @ t)") auto
qed

lemma dtstartMatch_SomeD: "dtstartMatch s = Some m \<Longrightarrow> \<exists>n. dtstartAt (drop n s) = Some m"
proof (induction s)
  case Nil
  then show ?case by simp
next
  case (Cons c cs)
  show ?case
  proof (cases "dtstartAt (c # cs)")
    case (Some m')
    with Cons.prems have "dtstartAt (drop 0 (c # cs)) = Some m" by simp
    then show ?thesis by (rule exI)
  next
    case None
    with Cons.prems have "dtstartMatch cs = Some m" by simp
    from Cons.IH[OF this] obtain n where "dtstartAt (drop n cs) = Some m" ..
    then have "dtstartAt (drop (Suc n) (c # cs)) = Some m" by simp
    then show ?thesis by (rule exI)
  qed
qed

lemma hasStartLine_iff: "hasStartLine s \<longleftrightarrow> dtstartMatch s \<noteq> None"
proof
  assume "hasStartLine s"
  then obtain pre z d post where s: "s = pre @ (''DTSTART;TZID='' @ z @ '':'' @ d @ post)"
    and z: "z \<noteq> []" "CHR '':'' \<notin> set z" and d: "isStamp d"
    unfolding hasStartLine_def by auto
  have "dtstartAt (''DTSTART;TZID='' @ z @ '':'' @ d @ post) \<noteq> None"
    using dtstartAt_intro[OF z d, of post] by simp
  from dtstartMatch_append[OF this, of pre] show "dtstartMatch s \<noteq> None"
    unfolding s .
next
  assume "dtstartMatch s \<noteq> None"
  then obtain m where "dtstartMatch s = Some m" by auto
  from dtstartMatch_SomeD[OF this] obtain n where m0: "dtstartAt (drop n s) = Some m" ..
  define pre where "pre = take n s"
  define t where "t = drop n s"
  have s: "s = pre @ t" and m: "dtstartAt t = Some m"
    using m0 by (simp_all add: pre_def t_def)
  obtain z d where zd: "m = (z, d)" by (cases m)
  from dtstartAt_SomeD[OF m[unfolded zd]] obtain post where
    t: "t = ''DTSTART;TZID='' @ z @ '':'' @ d @ post" and z: "z \<noteq> []" "CHR '':'' \<notin> set z"
    and d: "isStamp d" by blast
  show "hasStartLine s"
    unfolding hasStartLine_def
  proof (intro exI conjI)
    show "s = pre @ ''DTSTART;TZID='' @ z @ '':'' @ d @ post" using s t by simp
  qed (use z d in auto)
qed

lemma rruleAt_intro: "\<not> isLineTerminator c \<Longrightarrow> rruleAt (''RRULE:'' @ c # post) \<noteq> None"
  by (simp add: rruleAt_def)

lemma rruleAt_SomeD:
  assumes "rruleAt s = Some g"
  shows "\<exists>c post. s = ''RRULE:'' @ c # post \<and> \<not> isLineTerminator c"
proof -
  from assms have pre: "take 6 s = ''RRULE:''"
    by (auto simp: rruleAt_def split: if_splits)
  from assms pre have g: "takeWhile (\<lambda>c. \<not> isLineTerminator c) (drop 6 s) \<noteq> []"
    by (auto simp: rruleAt_def Let_def split: if_splits)
  then obtain c post where dr: "drop 6 s = c # post" by (cases "drop 6 s") auto
  with g have c: "\<not> isLineTerminator c" by (auto split: if_splits)
  have "s = take 6 s @ drop 6 s" by simp
  with pre dr have "s = ''RRULE:'' @ c # post" by simp
  with c show ?thesis by blast
qed

lemma rruleMatch_append: "rruleAt t \<noteq> None \<Longrightarrow> rruleMatch (pre @ t) \<noteq> None"
proof (induction pre)
  case Nil
  then show ?case by (cases t) auto
next
  case (Cons c cs)
  then show ?case by (cases "rruleAt (c # cs @ t)") auto
qed

lemma rruleMatch_SomeD: "rruleMatch s = Some g \<Longrightarrow> \<exists>n. rruleAt (drop n s) = Some g"
proof (induction s)
  case Nil
  then show ?case by simp
next
  case (Cons c cs)
  show ?case
  proof (cases "rruleAt (c # cs)")
    case (Some g')
    with Cons.prems have "rruleAt (drop 0 (c # cs)) = Some g" by simp
    then show ?thesis by (rule exI)
  next
    case None
    with Cons.prems have "rruleMatch cs = Some g" by simp
    from Cons.IH[OF this] obtain n where "rruleAt (drop n cs) = Some g" ..
    then have "rruleAt (drop (Suc n) (c # cs)) = Some g" by simp
    then show ?thesis by (rule exI)
  qed
qed

lemma hasRecurrenceLine_iff: "hasRecurrenceLine s \<longleftrightarrow> rruleMatch s \<noteq> None"
proof
  assume "hasRecurrenceLine s"
  then obtain pre c post where s: "s = pre @ (''RRULE:'' @ c # post)" and c: "\<not> isLineTerminator c"
    unfolding hasRecurrenceLine_def by auto
  from rruleMatch_append[OF rruleAt_intro[OF c, of post], of pre]
  show "rruleMatch s \<noteq> None" unfolding s .
next
  assume "rruleMatch s \<noteq> None"
  then obtain g where "rruleMatch s = Some g" by auto
  from rruleMatch_SomeD[OF this] obtain n where m0: "rruleAt (drop n s) = Some g" ..
  define pre where "pre = take n s"
  define t where "t = drop n s"
  have s: "s = pre @ t" and m: "rruleAt t = Some g"
    using m0 by (simp_all add: pre_def t_def)
  from rruleAt_SomeD[OF m] obtain c post where t: "t = ''RRULE:'' @ c # post"
    and c: "\<not> isLineTerminator c" by blast
  show "hasRecurrenceLine s"
    unfolding hasRecurrenceLine_def
  proof (intro exI conjI)
    show "s = pre @ ''RRULE:'' @ c # post" using s t by simp
  qed (use c in auto)
qed

subsection \<open>Malformed input\<close>

text \<open>
  Claim C8. For an input that is empty, or holds no start declaration, or holds no
  recurrence declaration, \<open>parseRRuleString\<close> returns \<open>null\<close> and
  \<open>getDatesWithCustomTimezone\<close> returns the empty array; neither raises a fault.
\<close>

theorem malformed_input_yields_nothing:
  assumes "rRuleString = [] \<or> \<not> hasStartLine rRuleString \<or> \<not> hasRecurrenceLine rRuleString"
  shows "parseRRuleString e rRuleString startTime = Inr None
         \<and> getDatesWithCustomTimezone e rRuleString targetTimeZone startTime = Inr []"
proof -
  from assms have "rRuleString = [] \<or> dtstartMatch rRuleString = None
                   \<or> rruleMatch rRuleString = None"
    unfolding hasStartLine_iff hasRecurrenceLine_iff by blast
  then have p: "parseRRuleString e rRuleString startTime = Inr None"
    by (auto simp: parseRRuleString_def split: option.splits)
  then show ?thesis
    by (simp add: getDatesWithCustomTimezone_def)
qed

theorem malformed_input_yields_nothing_witness:
  "\<not> hasStartLine ''invalid''
   \<and> parseRRuleString exampleEnv ''invalid'' ''2024-09-29T04:45:00'' = Inr None
   \<and> getDatesWithCustomTimezone exampleEnv ''invalid'' ''Europe/London'' ''2024-09-29T04:45:00''
       = Inr []"
proof -
  have "dtstartMatch ''invalid'' = None" by code_simp
  then have n: "\<not> hasStartLine ''invalid''"
    unfolding hasStartLine_iff by simp
  then have h: "''invalid'' = [] \<or> \<not> hasStartLine ''invalid'' \<or> \<not> hasRecurrenceLine ''invalid''"
    by blast
  from malformed_input_yields_nothing[OF h, of exampleEnv "''2024-09-29T04:45:00''" "''Europe/London''"] n
  show ?thesis by blast
qed

subsection \<open>The parser does not read the reference time\<close>

text \<open>
  Claim C9. The result of \<open>parseRRuleString\<close> depends on the rule text only: two calls
  with the same text and any two reference times return the same result, in the class
  and in the closure of the hook.
\<close>

theorem parse_ignores_startTime:
  "parseRRuleString e rRuleString startTime1 = parseRRuleString e rRuleString startTime2
   \<and> hook_parseRRuleString e rRuleString startTime1 = hook_parseRRuleString e rRuleString startTime2"
  by (simp add: parseRRuleString_def hook_parseRRuleString_def)

subsection \<open>The two generators\<close>

lemma parsePart_no_until:
  "keyOf p \<noteq> ''UNTIL'' \<Longrightarrow> hook_parsePart e opts p = parsePart e opts p"
  by (simp add: parsePart_def hook_parsePart_def Let_def)

lemma parsePart_keeps_until:
  "keyOf p \<noteq> ''UNTIL'' \<Longrightarrow> parsePart e opts p = Inr opts' \<Longrightarrow> until opts' = until opts"
  by (auto simp: parsePart_def Let_def split: if_splits option.splits)

lemma forEachPart_no_until:
  "\<forall>p \<in> set ps. keyOf p \<noteq> ''UNTIL'' \<Longrightarrow>
   forEachPart (hook_parsePart e) opts ps = forEachPart (parsePart e) opts ps"
  by (induction ps arbitrary: opts) (auto simp: parsePart_no_until split: sum.splits)

lemma forEachPart_keeps_until:
  "\<forall>p \<in> set ps. keyOf p \<noteq> ''UNTIL'' \<Longrightarrow> forEachPart (parsePart e) opts ps = Inr opts' \<Longrightarrow>
   until opts' = until opts"
proof (induction ps arbitrary: opts)
  case Nil
  then show ?case by simp
next
  case (Cons p ps)
  from Cons.prems(2) obtain o1 where p1: "parsePart e opts p = Inr o1"
    and r: "forEachPart (parsePart e) o1 ps = Inr opts'"
    by (auto split: sum.splits)
  from Cons.prems(1) have k: "keyOf p \<noteq> ''UNTIL''" and ks: "\<forall>p \<in> set ps. keyOf p \<noteq> ''UNTIL''"
    by auto
  from Cons.IH[OF ks r] parsePart_keeps_until[OF k p1] show ?case by simp
qed

lemma parse_no_until:
  assumes "\<not> hasUntilKey s"
  shows "hook_parseRRuleString e s st = parseRRuleString e s st"
    and "parseRRuleString e s st = Inr (Some opts) \<Longrightarrow> until opts = None"
proof -
  have eq: "forEachPart (hook_parsePart e) init (js_split CHR '';'' part)
            = forEachPart (parsePart e) init (js_split CHR '';'' part)"
    if "rruleMatch s = Some part" for init part
    using assms that by (intro forEachPart_no_until) (auto simp: hasUntilKey_def)
  show "hook_parseRRuleString e s st = parseRRuleString e s st"
  proof (cases "rruleMatch s")
    case None
    then show ?thesis
      by (simp add: hook_parseRRuleString_def parseRRuleString_def split: option.splits)
  next
    case (Some part)
    then show ?thesis
      by (simp add: hook_parseRRuleString_def parseRRuleString_def eq[OF Some]
            split: option.splits sum.splits)
  qed
  assume "parseRRuleString e s st = Inr (Some opts)"
  then obtain part init where m: "rruleMatch s = Some part"
    and f: "forEachPart (parsePart e) init (js_split CHR '';'' part) = Inr opts"
    and i: "until init = None"
    by (auto simp: parseRRuleString_def split: option.splits sum.splits if_splits)
  from assms m have "\<forall>p \<in> set (js_split CHR '';'' part). keyOf p \<noteq> ''UNTIL''"
    by (auto simp: hasUntilKey_def)
  from forEachPart_keeps_until[OF this f] i show "until opts = None" by simp
qed

lemma daily_loop_no_until:
  "until opts = None \<Longrightarrow>
   hook_generateDailyDates_loop e opts tz st m cur c ds = generateDailyDates_loop e opts tz st m cur c ds"
proof (induction e opts tz st m cur c ds rule: generateDailyDates_loop.induct)
  case (1 e opts tz st m cur c ds)
  show ?case
    apply (subst generateDailyDates_loop.simps)
    apply (subst hook_generateDailyDates_loop.simps)
    using 1 by (simp split: sum.splits)
qed

lemma weekly_byday_loop_no_until:
  "until opts = None \<Longrightarrow>
   hook_generateWeeklyDates_byday_loop e opts ws tz st m cur c ds
   = generateWeeklyDates_byday_loop e opts ws tz st m cur c ds"
proof (induction e opts ws tz st m cur c ds rule: generateWeeklyDates_byday_loop.induct)
  case (1 e opts ws tz st m cur c ds)
  show ?case
    apply (subst generateWeeklyDates_byday_loop.simps)
    apply (subst hook_generateWeeklyDates_byday_loop.simps)
    using 1 by (simp split: sum.splits)
qed

lemma weekly_flat_loop_no_until:
  "until opts = None \<Longrightarrow>
   hook_generateWeeklyDates_flat_loop e opts tz st m cur c ds
   = generateWeeklyDates_flat_loop e opts tz st m cur c ds"
proof (induction e opts tz st m cur c ds rule: generateWeeklyDates_flat_loop.induct)
  case (1 e opts tz st m cur c ds)
  show ?case
    apply (subst generateWeeklyDates_flat_loop.simps)
    apply (subst hook_generateWeeklyDates_flat_loop.simps)
    using 1 by (simp split: sum.splits)
qed

lemma monthlyEmit_same: "hook_monthlyEmit e opts tz st cur = monthlyEmit e opts tz st cur"
  by (simp add: hook_monthlyEmit_def monthlyEmit_def)

lemma monthly_loop_no_until:
  "until opts = None \<Longrightarrow>
   hook_generateMonthlyDates_loop e opts tz st m cur c ds
   = generateMonthlyDates_loop e opts tz st m cur c ds"
proof (induction e opts tz st m cur c ds rule: generateMonthlyDates_loop.induct)
  case (1 e opts tz st m cur c ds)
  show ?case
    apply (subst generateMonthlyDates_loop.simps)
    apply (subst hook_generateMonthlyDates_loop.simps)
    using 1 by (simp add: monthlyEmit_same split: sum.splits)
qed

lemma yearly_loop_no_until:
  "until opts = None \<Longrightarrow>
   hook_generateYearlyDates_loop e opts tz st m cur c ds
   = generateYearlyDates_loop e opts tz st m cur c ds"
proof (induction e opts tz st m cur c ds rule: generateYearlyDates_loop.induct)
  case (1 e opts tz st m cur c ds)
  show ?case
    apply (subst generateYearlyDates_loop.simps)
    apply (subst hook_generateYearlyDates_loop.simps)
    using 1 by (simp split: sum.splits)
qed

text \<open>
  Claim C3. For a rule text whose recurrence declaration holds no \<open>UNTIL\<close> key, the
  generator of the class \<open>TimezoneRRule\<close> and the generator in the closure of the hook
  return the same result for the same rule text, target zone and reference time.
\<close>

theorem generators_agree_without_until:
  assumes "\<not> hasUntilKey rRuleString"
  shows "hook_getDatesWithCustomTimezone e rRuleString targetTimeZone startTime
         = getDatesWithCustomTimezone e rRuleString targetTimeZone startTime"
proof -
  note p = parse_no_until[OF assms, of e startTime]
  show ?thesis
  proof (cases "parseRRuleString e rRuleString startTime")
    case (Inl f)
    then show ?thesis
      by (simp add: hook_getDatesWithCustomTimezone_def getDatesWithCustomTimezone_def p(1))
  next
    case (Inr r)
    show ?thesis
    proof (cases r)
      case None
      with Inr show ?thesis
        by (simp add: hook_getDatesWithCustomTimezone_def getDatesWithCustomTimezone_def p(1))
    next
      case (Some opts)
      with Inr p(2) have u: "until opts = None" by simp
      from Inr Some show ?thesis
        by (simp add: hook_getDatesWithCustomTimezone_def getDatesWithCustomTimezone_def p(1)
              hook_generateDailyDates_def generateDailyDates_def daily_loop_no_until[OF u]
              hook_generateWeeklyDates_def generateWeeklyDates_def
              weekly_byday_loop_no_until[OF u] weekly_flat_loop_no_until[OF u]
              hook_generateMonthlyDates_def generateMonthlyDates_def monthly_loop_no_until[OF u]
              hook_generateYearlyDates_def generateYearlyDates_def yearly_loop_no_until[OF u]
              split: Frequency.splits option.splits)
    qed
  qed
qed

theorem generators_agree_without_until_witness:
  "\<not> hasUntilKey exampleDaily
   \<and> hook_getDatesWithCustomTimezone exampleEnv exampleDaily ''Europe/London'' ''2024-09-29T04:45:00''
     = getDatesWithCustomTimezone exampleEnv exampleDaily ''Europe/London'' ''2024-09-29T04:45:00''"
proof -
  have h: "\<not> hasUntilKey exampleDaily" by code_simp
  from generators_agree_without_until[OF h] h show ?thesis by simp
qed

text \<open>With an \<open>UNTIL\<close> key the two do differ: a date that falls on the \<open>until\<close> instant is
  emitted by the class and not by the closure.\<close>

lemma until_boundary_divergence:
  "getDatesWithCustomTimezone utcEnv exampleBoundary ''UTC'' ''2024-09-29T04:45:00''
     = Inr [ISO \<lparr>year = 2024, month = 9, day = 29, hour = 4, minute = 45, second = 0,
                  millisecond = 0\<rparr> 0,
            ISO \<lparr>year = 2024, month = 9, day = 30, hour = 4, minute = 45, second = 0,
                  millisecond = 0\<rparr> 0]
   \<and> hook_getDatesWithCustomTimezone utcEnv exampleBoundary ''UTC'' ''2024-09-29T04:45:00''
     = Inr [ISO \<lparr>year = 2024, month = 9, day = 29, hour = 4, minute = 45, second = 0,
                  millisecond = 0\<rparr> 0]"
  by code_simp

subsection \<open>The length of the output\<close>

lemma monthlyEmit_length:
  assumes "monthlyEmit e opts tz st cur = Inr strs"
  shows "length strs \<le> 1 \<and> (byweekday opts = None \<or> bysetpos opts = None \<longrightarrow> length strs = 1)"
  using assms
  by (auto simp: monthlyEmit_def Let_def split: option.splits sum.splits)

lemma daily_loop_length:
  "generateDailyDates_loop e opts tz st m cur c ds = Inr xs \<Longrightarrow>
   int (length xs) \<le> int (length ds) + max 0 (m - c)
   \<and> (until opts = None \<longrightarrow> int (length xs) = int (length ds) + max 0 (m - c))"
proof (induction e opts tz st m cur c ds rule: generateDailyDates_loop.induct)
  case (1 e opts tz st m cur c ds)
  show ?case
  proof (cases "c < m")
    case False
    with "1.prems" have "xs = ds"
      by (subst (asm) generateDailyDates_loop.simps) simp
    with False show ?thesis by simp
  next
    case True
    show ?thesis
    proof (cases "case until opts of None \<Rightarrow> False | Some u \<Rightarrow> date_gt (toJSDate cur) u")
      case stop: True
      with True "1.prems" have "xs = ds"
        by (subst (asm) generateDailyDates_loop.simps) simp
      moreover from stop have "until opts \<noteq> None" by (auto split: option.splits)
      ultimately show ?thesis using True by simp
    next
      case go: False
      from True go "1.prems" obtain str nxt where p: "projectToZone e tz st cur = Inr str"
        and n: "plusDays (interval opts) cur = Inr nxt"
        and r: "generateDailyDates_loop e opts tz st m nxt (c + 1) (ds @ [str]) = Inr xs"
        by (subst (asm) generateDailyDates_loop.simps) (auto split: sum.splits)
      from "1.IH"[OF True go p n r] True show ?thesis by simp
    qed
  qed
qed

lemma weekly_flat_loop_length:
  "generateWeeklyDates_flat_loop e opts tz st m cur c ds = Inr xs \<Longrightarrow>
   int (length xs) \<le> int (length ds) + max 0 (m - c)
   \<and> (until opts = None \<longrightarrow> int (length xs) = int (length ds) + max 0 (m - c))"
proof (induction e opts tz st m cur c ds rule: generateWeeklyDates_flat_loop.induct)
  case (1 e opts tz st m cur c ds)
  show ?case
  proof (cases "c < m")
    case False
    with "1.prems" have "xs = ds"
      by (subst (asm) generateWeeklyDates_flat_loop.simps) simp
    with False show ?thesis by simp
  next
    case True
    show ?thesis
    proof (cases "case until opts of None \<Rightarrow> False | Some u \<Rightarrow> date_gt (toJSDate cur) u")
      case stop: True
      with True "1.prems" have "xs = ds"
        by (subst (asm) generateWeeklyDates_flat_loop.simps) simp
      moreover from stop have "until opts \<noteq> None" by (auto split: option.splits)
      ultimately show ?thesis using True by simp
    next
      case go: False
      from True go "1.prems" obtain str nxt where p: "projectToZone e tz st cur = Inr str"
        and n: "plusWeeks (interval opts) cur = Inr nxt"
        and r: "generateWeeklyDates_flat_loop e opts tz st m nxt (c + 1) (ds @ [str]) = Inr xs"
        by (subst (asm) generateWeeklyDates_flat_loop.simps) (auto split: sum.splits)
      from "1.IH"[OF True go p n r] True show ?thesis by simp
    qed
  qed
qed

lemma weekly_byday_loop_length:
  "generateWeeklyDates_byday_loop e opts ws tz st m cur c ds = Inr xs \<Longrightarrow>
   int (length xs) \<le> int (length ds) + max 0 (m - c)"
proof (induction e opts ws tz st m cur c ds rule: generateWeeklyDates_byday_loop.induct)
  case (1 e opts ws tz st m cur c ds)
  show ?case
  proof (cases "c < m")
    case False
    with "1.prems" have "xs = ds"
      by (subst (asm) generateWeeklyDates_byday_loop.simps) simp
    with False show ?thesis by simp
  next
    case True
    show ?thesis
    proof (cases "case until opts of None \<Rightarrow> False | Some u \<Rightarrow> date_gt (toJSDate cur) u")
      case stop: True
      with True "1.prems" have "xs = ds"
        by (subst (asm) generateWeeklyDates_byday_loop.simps) simp
      then show ?thesis using True by simp
    next
      case go: False
      show ?thesis
      proof (cases "includesWeekday ws (currentWeekdayOf cur)")
        case inc: True
        from True go inc "1.prems" obtain str where p: "projectToZone e tz st cur = Inr str"
          and r: "generateWeeklyDates_byday_loop e opts ws tz st m (addDays 1 cur) (c + 1)
                    (ds @ [str]) = Inr xs"
          by (subst (asm) generateWeeklyDates_byday_loop.simps) (auto split: sum.splits)
        from "1.IH"(1)[OF True go inc p r] True show ?thesis by simp
      next
        case exc: False
        from True go exc "1.prems" have
          r: "generateWeeklyDates_byday_loop e opts ws tz st m (addDays 1 cur) (c + 1) ds = Inr xs"
          by (subst (asm) generateWeeklyDates_byday_loop.simps) (auto split: sum.splits)
        from "1.IH"(2)[OF True go exc r] True show ?thesis by simp
      qed
    qed
  qed
qed

lemma monthly_loop_length:
  "generateMonthlyDates_loop e opts tz st m cur c ds = Inr xs \<Longrightarrow>
   int (length xs) \<le> int (length ds) + max 0 (m - c)
   \<and> (until opts = None \<and> (byweekday opts = None \<or> bysetpos opts = None) \<longrightarrow> int (length xs) = int (length ds) + max 0 (m - c))"
proof (induction e opts tz st m cur c ds rule: generateMonthlyDates_loop.induct)
  case (1 e opts tz st m cur c ds)
  show ?case
  proof (cases "c < m")
    case False
    with "1.prems" have "xs = ds"
      by (subst (asm) generateMonthlyDates_loop.simps) simp
    with False show ?thesis by simp
  next
    case True
    show ?thesis
    proof (cases "case until opts of None \<Rightarrow> False | Some u \<Rightarrow> date_gt (toJSDate cur) u")
      case stop: True
      with True "1.prems" have "xs = ds"
        by (subst (asm) generateMonthlyDates_loop.simps) simp
      moreover from stop have "until opts \<noteq> None" by (auto split: option.splits)
      ultimately show ?thesis using True by simp
    next
      case go: False
      from True go "1.prems" obtain strs nxt where p: "monthlyEmit e opts tz st cur = Inr strs"
        and n: "plusMonths (interval opts) cur = Inr nxt"
        and r: "generateMonthlyDates_loop e opts tz st m nxt (c + 1) (ds @ strs) = Inr xs"
        by (subst (asm) generateMonthlyDates_loop.simps) (auto split: sum.splits)
      from monthlyEmit_length[OF p] have l: "length strs \<le> 1"
        and l1: "byweekday opts = None \<or> bysetpos opts = None \<Longrightarrow> length strs = 1" by auto
      from "1.IH"[OF True go p n r] True l l1 show ?thesis by auto
    qed
  qed
qed

lemma yearly_loop_length:
  "generateYearlyDates_loop e opts tz st m cur c ds = Inr xs \<Longrightarrow>
   int (length xs) \<le> int (length ds) + max 0 (m - c)
   \<and> (until opts = None \<longrightarrow> int (length xs) = int (length ds) + max 0 (m - c))"
proof (induction e opts tz st m cur c ds rule: generateYearlyDates_loop.induct)
  case (1 e opts tz st m cur c ds)
  show ?case
  proof (cases "c < m")
    case False
    with "1.prems" have "xs = ds"
      by (subst (asm) generateYearlyDates_loop.simps) simp
    with False show ?thesis by simp
  next
    case True
    show ?thesis
    proof (cases "case until opts of None \<Rightarrow> False | Some u \<Rightarrow> date_gt (toJSDate cur) u")
      case stop: True
      with True "1.prems" have "xs = ds"
        by (subst (asm) generateYearlyDates_loop.simps) simp
      moreover from stop have "until opts \<noteq> None" by (auto split: option.splits)
      ultimately show ?thesis using True by simp
    next
      case go: False
      from True go "1.prems" obtain str nxt where p: "projectToZone e tz st cur = Inr str"
        and n: "plusYears (interval opts) cur = Inr nxt"
        and r: "generateYearlyDates_loop e opts tz st m nxt (c + 1) (ds @ [str]) = Inr xs"
        by (subst (asm) generateYearlyDates_loop.simps) (auto split: sum.splits)
      from "1.IH"[OF True go p n r] True show ?thesis by simp
    qed
  qed
qed

lemma projectToZone_returns:
  "fromISO e st = DT t0 off0 \<Longrightarrow> \<exists>str. projectToZone e tz st dt = Inr str"
  by (cases "setZone e tz dt") (simp_all add: projectToZone_def Let_def)

lemma monthlyEmit_returns:
  assumes "fromISO e st = DT t0 off0"
  shows "\<exists>strs. monthlyEmit e opts tz st cur = Inr strs"
proof -
  have "\<exists>str. projectToZone e tz st dt = Inr str" for dt
    by (rule projectToZone_returns[OF assms])
  then have "\<And>dt. \<exists>strs. (case projectToZone e tz st dt of Inl f \<Rightarrow> Inl f | Inr str \<Rightarrow> Inr [str]) = Inr strs"
    by (metis sum.case(2))
  then show ?thesis
    by (auto simp: monthlyEmit_def Let_def split: option.splits)
qed

lemma daily_loop_returns:
  "interval opts = Num k \<Longrightarrow> fromISO e st = DT t0 off0 \<Longrightarrow>
   \<exists>xs. generateDailyDates_loop e opts tz st m cur c ds = Inr xs"
proof (induction e opts tz st m cur c ds rule: generateDailyDates_loop.induct)
  case (1 e opts tz st m cur c ds)
  from projectToZone_returns[OF "1.prems"(2), of tz cur]
  obtain str where p: "projectToZone e tz st cur = Inr str" ..
  obtain nxt where n: "plusDays (interval opts) cur = Inr nxt"
    using "1.prems"(1) by (cases cur) simp_all
  show ?case
    apply (subst generateDailyDates_loop.simps)
    using "1.IH"[OF _ _ p n "1.prems"] p n by auto
qed

lemma weekly_flat_loop_returns:
  "interval opts = Num k \<Longrightarrow> fromISO e st = DT t0 off0 \<Longrightarrow>
   \<exists>xs. generateWeeklyDates_flat_loop e opts tz st m cur c ds = Inr xs"
proof (induction e opts tz st m cur c ds rule: generateWeeklyDates_flat_loop.induct)
  case (1 e opts tz st m cur c ds)
  from projectToZone_returns[OF "1.prems"(2), of tz cur]
  obtain str where p: "projectToZone e tz st cur = Inr str" ..
  obtain nxt where n: "plusWeeks (interval opts) cur = Inr nxt"
    using "1.prems"(1) by (cases cur) simp_all
  show ?case
    apply (subst generateWeeklyDates_flat_loop.simps)
    using "1.IH"[OF _ _ p n "1.prems"] p n by auto
qed

lemma monthly_loop_returns:
  "interval opts = Num k \<Longrightarrow> fromISO e st = DT t0 off0 \<Longrightarrow>
   \<exists>xs. generateMonthlyDates_loop e opts tz st m cur c ds = Inr xs"
proof (induction e opts tz st m cur c ds rule: generateMonthlyDates_loop.induct)
  case (1 e opts tz st m cur c ds)
  from monthlyEmit_returns[OF "1.prems"(2), of opts tz cur]
  obtain str where p: "monthlyEmit e opts tz st cur = Inr str" ..
  obtain nxt where n: "plusMonths (interval opts) cur = Inr nxt"
    using "1.prems"(1) by (cases cur) simp_all
  show ?case
    apply (subst generateMonthlyDates_loop.simps)
    using "1.IH"[OF _ _ p n "1.prems"] p n by auto
qed

lemma yearly_loop_returns:
  "interval opts = Num k \<Longrightarrow> fromISO e st = DT t0 off0 \<Longrightarrow>
   \<exists>xs. generateYearlyDates_loop e opts tz st m cur c ds = Inr xs"
proof (induction e opts tz st m cur c ds rule: generateYearlyDates_loop.induct)
  case (1 e opts tz st m cur c ds)
  from projectToZone_returns[OF "1.prems"(2), of tz cur]
  obtain str where p: "projectToZone e tz st cur = Inr str" ..
  obtain nxt where n: "plusYears (interval opts) cur = Inr nxt"
    using "1.prems"(1) by (cases cur) simp_all
  show ?case
    apply (subst generateYearlyDates_loop.simps)
    using "1.IH"[OF _ _ p n "1.prems"] p n by auto
qed


lemma getDates_length_le:
  assumes "parseRRuleString e rRuleString startTime = Inr (Some opts)"
    and "getDatesWithCustomTimezone e rRuleString targetTimeZone startTime = Inr dates"
  shows "int (length dates) \<le> max 0 (maxCountOf opts)"
proof -
  from assms(1) have ne: "rRuleString \<noteq> []" by (auto simp: parseRRuleString_def)
  show ?thesis
  proof (cases "freq opts")
  case DAILY
  with assms ne have "generateDailyDates_loop e opts targetTimeZone startTime (maxCountOf opts)
      (fromJSDate e (dtstart opts)) 0 [] = Inr dates"
    by (simp add: getDatesWithCustomTimezone_def generateDailyDates_def split: if_splits)
  from daily_loop_length[OF this] show ?thesis by simp
next
  case WEEKLY
  with assms ne have g: "generateWeeklyDates e opts targetTimeZone startTime = Inr dates"
    by (simp add: getDatesWithCustomTimezone_def split: if_splits)
  then consider
    "generateWeeklyDates_flat_loop e opts targetTimeZone startTime (maxCountOf opts)
      (fromJSDate e (dtstart opts)) 0 [] = Inr dates"
    | ws where "generateWeeklyDates_byday_loop e opts ws targetTimeZone startTime (maxCountOf opts)
      (fromJSDate e (dtstart opts)) 0 [] = Inr dates"
    by (auto simp: generateWeeklyDates_def split: option.splits if_splits)
  then show ?thesis
  proof cases
    case 1
    from weekly_flat_loop_length[OF this] show ?thesis by simp
  next
    case 2
    from weekly_byday_loop_length[OF this] show ?thesis by simp
  qed
next
  case MONTHLY
  with assms ne have "generateMonthlyDates_loop e opts targetTimeZone startTime (maxCountOf opts)
      (fromJSDate e (dtstart opts)) 0 [] = Inr dates"
    by (simp add: getDatesWithCustomTimezone_def generateMonthlyDates_def split: if_splits)
  from monthly_loop_length[OF this] show ?thesis by simp
next
  case YEARLY
  with assms ne have "generateYearlyDates_loop e opts targetTimeZone startTime (maxCountOf opts)
      (fromJSDate e (dtstart opts)) 0 [] = Inr dates"
    by (simp add: getDatesWithCustomTimezone_def generateYearlyDates_def split: if_splits)
  from yearly_loop_length[OF this] show ?thesis by simp
qed
qed

text \<open>
  Claim C10. In every frequency mode the sequence \<open>getDatesWithCustomTimezone\<close> returns
  has at most \<open>count\<close> elements when the parsed count is a positive integer, and at most
  1000 when the count is absent, whatever \<open>until\<close>, \<open>byweekday\<close> and \<open>bysetpos\<close> are.
\<close>

theorem output_length_bounded:
  assumes "parseRRuleString e rRuleString startTime = Inr (Some opts)"
    and "getDatesWithCustomTimezone e rRuleString targetTimeZone startTime = Inr dates"
  shows "(\<forall>n. count opts = Some (Num n) \<and> 0 < n \<longrightarrow> int (length dates) \<le> n)
         \<and> (count opts = None \<longrightarrow> length dates \<le> 1000)"
  using getDates_length_le[OF assms] by (auto simp: maxCountOf_def)

theorem output_length_bounded_witness:
  "parseRRuleString exampleEnv exampleWeekly ''2024-09-29T04:45:00''
     = Inr (Some \<lparr>freq = WEEKLY, interval = Num 1, dtstart = Date 1727585100000, until = None,
                   wkst = Some MO, byweekday = Some [MO, WE, FR], bysetpos = None,
                   count = Some (Num 3)\<rparr>)
   \<and> getDatesWithCustomTimezone exampleEnv exampleWeekly ''Europe/London'' ''2024-09-29T04:45:00''
     = Inr [ISO \<lparr>year = 2024, month = 9, day = 30, hour = 4, minute = 45, second = 0,
                  millisecond = 0\<rparr> 60]
   \<and> int (length [ISO \<lparr>year = 2024, month = 9, day = 30, hour = 4, minute = 45, second = 0,
                  millisecond = 0\<rparr> 60]) \<le> 3"
proof -
  have p: "parseRRuleString exampleEnv exampleWeekly ''2024-09-29T04:45:00''
     = Inr (Some \<lparr>freq = WEEKLY, interval = Num 1, dtstart = Date 1727585100000, until = None,
                   wkst = Some MO, byweekday = Some [MO, WE, FR], bysetpos = None,
                   count = Some (Num 3)\<rparr>)"
    by code_simp
  have g: "getDatesWithCustomTimezone exampleEnv exampleWeekly ''Europe/London'' ''2024-09-29T04:45:00''
     = Inr [ISO \<lparr>year = 2024, month = 9, day = 30, hour = 4, minute = 45, second = 0,
                  millisecond = 0\<rparr> 60]"
    by code_simp
  from output_length_bounded[OF p g] p g show ?thesis by simp
qed

subsection \<open>The number of emitted texts\<close>

text \<open>
  Where every round of a loop emits, a positive count \<open>n\<close> without \<open>until\<close> gives exactly
  \<open>n\<close> texts: in the daily and yearly modes, in the weekly mode without \<open>byweekday\<close> and
  in the monthly mode unless both \<open>byweekday\<close> and \<open>bysetpos\<close> are given. The generator
  returns when the interval is a number and the reference time is valid.
\<close>

lemma count_exact_where_every_round_emits:
  assumes "parseRRuleString e rRuleString startTime = Inr (Some opts)"
    and "count opts = Some (Num n)" and "0 < n" and "until opts = None"
    and "freq opts = WEEKLY \<longrightarrow> byweekday opts = None"
    and "freq opts = MONTHLY \<longrightarrow> byweekday opts = None \<or> bysetpos opts = None"
  shows "(\<forall>dates. getDatesWithCustomTimezone e rRuleString targetTimeZone startTime = Inr dates
            \<longrightarrow> int (length dates) = n)
         \<and> (interval opts \<noteq> NaN \<and> fromISO e startTime \<noteq> Invalid
            \<longrightarrow> (\<exists>dates. getDatesWithCustomTimezone e rRuleString targetTimeZone startTime
                          = Inr dates))"
proof -
  from assms(2,3) have m: "maxCountOf opts = n" by (simp add: maxCountOf_def)
  from assms(1) have ne: "rRuleString \<noteq> []" by (auto simp: parseRRuleString_def)
  have ret: "\<exists>dates. getDatesWithCustomTimezone e rRuleString targetTimeZone startTime = Inr dates"
    if i: "interval opts \<noteq> NaN" and r: "fromISO e startTime \<noteq> Invalid"
  proof -
    from i obtain k where k: "interval opts = Num k" by (cases "interval opts") auto
    from r obtain t0 off0 where t: "fromISO e startTime = DT t0 off0"
      by (cases "fromISO e startTime") auto
    show ?thesis
      using assms(1,5) ne daily_loop_returns[OF k t] weekly_flat_loop_returns[OF k t]
        monthly_loop_returns[OF k t] yearly_loop_returns[OF k t]
      by (cases "freq opts")
         (simp_all add: getDatesWithCustomTimezone_def generateDailyDates_def
            generateWeeklyDates_def generateMonthlyDates_def generateYearlyDates_def)
  qed
  have len: "int (length dates) = n"
    if g: "getDatesWithCustomTimezone e rRuleString targetTimeZone startTime = Inr dates" for dates
  proof (cases "freq opts")
    case DAILY
    with assms(1) g ne have "generateDailyDates_loop e opts targetTimeZone startTime (maxCountOf opts)
        (fromJSDate e (dtstart opts)) 0 [] = Inr dates"
      by (simp add: getDatesWithCustomTimezone_def generateDailyDates_def)
    from daily_loop_length[OF this] assms(3,4) m show ?thesis by simp
  next
    case WEEKLY
    with assms(1,5) g ne have "generateWeeklyDates_flat_loop e opts targetTimeZone startTime
        (maxCountOf opts) (fromJSDate e (dtstart opts)) 0 [] = Inr dates"
      by (simp add: getDatesWithCustomTimezone_def generateWeeklyDates_def)
    from weekly_flat_loop_length[OF this] assms(3,4) m show ?thesis by simp
  next
    case MONTHLY
    with assms(1) g ne have "generateMonthlyDates_loop e opts targetTimeZone startTime
        (maxCountOf opts) (fromJSDate e (dtstart opts)) 0 [] = Inr dates"
      by (simp add: getDatesWithCustomTimezone_def generateMonthlyDates_def)
    from monthly_loop_length[OF this] assms(3,4,6) MONTHLY m show ?thesis by simp
  next
    case YEARLY
    with assms(1) g ne have "generateYearlyDates_loop e opts targetTimeZone startTime
        (maxCountOf opts) (fromJSDate e (dtstart opts)) 0 [] = Inr dates"
      by (simp add: getDatesWithCustomTimezone_def generateYearlyDates_def)
    from yearly_loop_length[OF this] assms(3,4) m show ?thesis by simp
  qed
  from ret len show ?thesis by blast
qed

text \<open>
  Claim C1 says that a rule with \<open>COUNT=N\<close> and no \<open>UNTIL\<close> yields exactly \<open>N\<close> texts in
  every mode, the weekly mode with \<open>BYDAY\<close> and the monthly mode with \<open>BYDAY\<close> and
  \<open>BYSETPOS\<close> included. In these two loops the counter is increased on every round,
  also on a round that emits nothing, so the count bounds the days or months visited and
  not the texts emitted. The weekly rule \<open>BYDAY=MO,WE,FR;COUNT=3\<close> starting on Monday
  2024-09-30 visits Monday, Tuesday and Wednesday and yields two texts; the monthly rule
  \<open>BYDAY=MO;BYSETPOS=5;COUNT=3\<close> visits September, October and November 2024 and yields
  the fifth Monday of September only.
\<close>

theorem count_bounds_rounds_not_texts:
  "parseRRuleString exampleEnv exampleWeeklyMonday ''2024-09-29T04:45:00''
     = Inr (Some \<lparr>freq = WEEKLY, interval = Num 1, dtstart = Date 1727671500000, until = None,
                   wkst = Some MO, byweekday = Some [MO, WE, FR], bysetpos = None,
                   count = Some (Num 3)\<rparr>)
   \<and> getDatesWithCustomTimezone exampleEnv exampleWeeklyMonday ''Europe/London''
         ''2024-09-29T04:45:00''
     = Inr [ISO \<lparr>year = 2024, month = 9, day = 30, hour = 4, minute = 45, second = 0,
                  millisecond = 0\<rparr> 60,
            ISO \<lparr>year = 2024, month = 10, day = 2, hour = 4, minute = 45, second = 0,
                  millisecond = 0\<rparr> 60]
   \<and> parseRRuleString exampleEnv exampleFifthMonday ''2024-09-29T04:45:00''
     = Inr (Some \<lparr>freq = MONTHLY, interval = Num 1, dtstart = Date 1727585100000, until = None,
                   wkst = Some MO, byweekday = Some [MO], bysetpos = Some [Num 5],
                   count = Some (Num 3)\<rparr>)
   \<and> getDatesWithCustomTimezone exampleEnv exampleFifthMonday ''Europe/London''
         ''2024-09-29T04:45:00''
     = Inr [ISO \<lparr>year = 2024, month = 9, day = 30, hour = 4, minute = 45, second = 0,
                  millisecond = 0\<rparr> 60]"
  by code_simp


subsection \<open>The start instant\<close>




































lemma length_twoDigits [simp]: "length (twoDigits n) = 2"
  by (simp add: twoDigits_def)

lemma length_fourDigits [simp]: "length (fourDigits n) = 4"
  by (simp add: fourDigits_def)















subsection \<open>The interval and the until instant\<close>

text \<open>
  Claim C5 at a failing input. With \<open>INTERVAL=abc\<close> the parsed interval is \<open>NaN\<close>, not 1,
  and the daily generator then faults when it adds the interval.
\<close>

theorem unparsable_interval_is_NaN:
  "parseRRuleString exampleEnv exampleBadInterval ''2024-09-29T04:45:00''
     = Inr (Some \<lparr>freq = DAILY, interval = NaN, dtstart = Date 1727585100000, until = None,
                   wkst = Some MO, byweekday = None, bysetpos = None, count = Some (Num 3)\<rparr>)
   \<and> getDatesWithCustomTimezone exampleEnv exampleBadInterval ''Europe/London''
         ''2024-09-29T04:45:00'' = Inl InvalidArgumentError"
  by code_simp

text \<open>The date constructor of the class reads its fields in the system zone: for fields
  that are a date and a time of day, its instant is the UTC reading moved by the offset
  of the system zone.\<close>

lemma newDate_is_local:
  assumes "fromObjectUTC (Num y) (Num mo) (Num d) (Num h) (Num mi) (Num s) = Inr (DT t 0)"
    and "y < 0 \<or> 99 < y" and "\<bar>t - sysOffset e * msPerMinute\<bar> \<le> maxTime"
  shows "newDate e (Num y) (pred_num (Num mo)) (Num d) (Num h) (Num mi) (Num s)
         = Date (t - sysOffset e * msPerMinute)"
proof -
  from assms(1) have "mkLocal (objToLocalTS \<lparr>year = y, month = mo, day = d, hour = h,
                                  minute = mi, second = s, millisecond = 0\<rparr>) 0 = DT t 0"
    by (auto simp: fromObjectUTC_def split: if_splits)
  then have t: "t = makeDay y (mo - 1) d * msPerDay + h * msPerHour + mi * msPerMinute
                    + s * msPerSecond"
    by (auto simp: mkLocal_def objToLocalTS_def split: if_splits)
  show ?thesis
    using assms(2,3) by (auto simp: newDate_def pred_num_def t Let_def)
qed

text \<open>
  Claim C2 at a failing input. In a system zone four hours behind UTC, the class reads
  \<open>UNTIL=20241231T000000\<close> as 23:59:59 local time, that is 2025-01-01T03:59:59Z, where the
  closure of the hook reads it as 2024-12-31T23:59:59Z, the UTC reading of the fields.
\<close>

theorem class_until_is_local_time:
  "parseRRuleString exampleEnv exampleUntil ''2024-09-29T04:45:00''
     = Inr (Some \<lparr>freq = DAILY, interval = Num 1, dtstart = Date 1727585100000,
                   until = Some (Date 1735703999000),
                   wkst = Some MO, byweekday = None, bysetpos = None, count = None\<rparr>)
   \<and> hook_parseRRuleString exampleEnv exampleUntil ''2024-09-29T04:45:00''
     = Inr (Some \<lparr>freq = DAILY, interval = Num 1, dtstart = Date 1727585100000,
                   until = Some (Date 1735689599000),
                   wkst = Some MO, byweekday = None, bysetpos = None, count = None\<rparr>)
   \<and> fromObjectUTC (Num 2024) (Num 12) (Num 31) (Num 23) (Num 59) (Num 59)
     = Inr (DT 1735689599000 0)"
  by code_simp


subsection \<open>The Nth weekday of the month\<close>

lemma matchesTarget_dayOfWeek:
  "matchesTarget dt (Some w) \<longleftrightarrow> dayOfWeek dt = Some (weekdayNum w)"
proof (cases dt)
  case Invalid
  then show ?thesis by (simp add: matchesTarget_def)
next
  case (DT t off)
  have "((x + 3) mod 7 + 1) mod 7 = (x + 4) mod 7" for x :: int by presburger
  with DT show ?thesis by (simp add: matchesTarget_def)
qed

lemma mkLocal_range: "mkLocal l off = DT t off' \<Longrightarrow> off' = off \<and> t = l - off * msPerMinute \<and> \<bar>l\<bar> \<le> maxTime"
  by (auto simp: mkLocal_def split: if_splits)

lemma div_step: "(0::int) < D \<Longrightarrow> (x - D) div D = x div D - 1"
  using div_add_self2[of D "x - D"] by simp

lemma upt_Suc_map: "map f [0 ..< Suc n] = f 0 # map (\<lambda>k. f (Suc k)) [0 ..< n]"
  by (simp add: upt_conv_Cons map_Suc_upt[symmetric] del: upt_Suc)

lemma weekdayOccurrences_loop_enumerates:
  assumes "n = nat ((t1 - t) div msPerDay + 1)"
    and "t1 + off * msPerMinute \<le> maxTime" and "- maxTime \<le> t + off * msPerMinute"
  shows "weekdayOccurrences_loop tw (DT t1 off1) (DT t off) acc
         = acc @ filter (\<lambda>d. matchesTarget d tw) (map (\<lambda>k. DT (t + int k * msPerDay) off) [0 ..< n])"
  using assms
proof (induction n arbitrary: t acc)
  case 0
  then have "(t1 - t) div msPerDay < 0" by simp
  then have "t1 < t" using pos_imp_zdiv_neg_iff[of msPerDay "t1 - t"] by simp
  then show ?case
    by (subst weekdayOccurrences_loop.simps) simp
next
  case (Suc n)
  from Suc.prems(1) have "\<not> (t1 - t) div msPerDay < 0" by linarith
  then have le: "t \<le> t1" using pos_imp_zdiv_neg_iff[of msPerDay "t1 - t"] by simp
  let ?acc' = "if matchesTarget (DT t off) tw then acc @ [DT t off] else acc"
  let ?f = "\<lambda>k. DT (t + int k * msPerDay) off"
  have unf: "weekdayOccurrences_loop tw (DT t1 off1) (DT t off) acc
        = weekdayOccurrences_loop tw (DT t1 off1) (addDays 1 (DT t off)) ?acc'"
    using le by (subst weekdayOccurrences_loop.simps) simp
  have n: "n = nat ((t1 - (t + msPerDay)) div msPerDay + 1)"
    using Suc.prems(1) div_step[of msPerDay "t1 - t"] by (simp add: algebra_simps)
  have first: "acc @ filter (\<lambda>d. matchesTarget d tw) [DT t off] = ?acc'" by simp
  show ?case
  proof (cases "\<bar>t + off * msPerMinute + msPerDay\<bar> > maxTime")
    case True
    then have inv: "addDays 1 (DT t off) = Invalid" by (simp add: mkLocal_def)
    from True Suc.prems(2,3) have "t1 - t < msPerDay" by linarith
    with le have "(t1 - t) div msPerDay = 0" by simp
    with Suc.prems(1) have "n = 0" by simp
    have "weekdayOccurrences_loop tw (DT t1 off1) Invalid ?acc' = ?acc'"
      by (subst weekdayOccurrences_loop.simps) simp
    with unf inv \<open>n = 0\<close> show ?thesis by simp
  next
    case False
    then have nx: "addDays 1 (DT t off) = DT (t + msPerDay) off"
      by (simp add: mkLocal_def)
    from Suc.prems(3) have lo: "- maxTime \<le> (t + msPerDay) + off * msPerMinute" by simp
    have "weekdayOccurrences_loop tw (DT t1 off1) (DT (t + msPerDay) off) ?acc'
          = ?acc' @ filter (\<lambda>d. matchesTarget d tw)
                      (map (\<lambda>k. DT (t + msPerDay + int k * msPerDay) off) [0 ..< n])"
      by (rule Suc.IH[OF n Suc.prems(2) lo])
    moreover have "map ?f [0 ..< Suc n]
          = DT t off # map (\<lambda>k. DT (t + msPerDay + int k * msPerDay) off) [0 ..< n]"
      by (subst upt_Suc_map) (simp add: algebra_simps)
    ultimately show ?thesis using unf nx by simp
  qed
qed

lemma startOfMonth_range:
  "startOfMonth (DT t off) = DT t0 off0 \<Longrightarrow> off0 = off \<and> \<bar>t0 + off * msPerMinute\<bar> \<le> maxTime"
  by (auto dest!: mkLocal_range)

lemma plusMonths_offset:
  "plusMonths (Num k) (DT t off) = Inr (DT t' off') \<Longrightarrow> off' = off"
  by (auto dest!: mkLocal_range)

lemma endOfMonth_range:
  assumes "endOfMonth (DT t off) = DT t1 off1"
  shows "off1 = off \<and> \<bar>t1 + off * msPerMinute\<bar> \<le> maxTime"
proof -
  obtain nxt where p: "plusMonths (Num 1) (DT t off) = Inr nxt" by simp
  with assms have m: "minusMillisecond (startOfMonth nxt) = DT t1 off1" by simp
  then obtain t' off' where s: "startOfMonth nxt = DT t' off'"
    by (cases "startOfMonth nxt") auto
  then obtain tn offn where nxt: "nxt = DT tn offn" by (cases nxt) auto
  from p nxt have "offn = off" using plusMonths_offset[of 1 t off tn offn] by simp
  with s nxt have "off' = off" using startOfMonth_range[of tn offn t' off'] by simp
  with m s mkLocal_range[of "t' + off' * msPerMinute - 1" off' t1 off1] show ?thesis by auto
qed

lemma weekdayOccurrences_of_month:
  "weekdayOccurrences_loop (Some w) (endOfMonth cur) (startOfMonth cur) []
   = filter (\<lambda>d. dayOfWeek d = Some (weekdayNum w)) (monthDates cur)"
proof (cases "startOfMonth cur")
  case Invalid
  then show ?thesis
    by (subst weekdayOccurrences_loop.simps) (simp add: monthDates_def)
next
  case s: (DT t0 off0)
  then obtain t off where DT: "cur = DT t off" by (cases cur) auto
  show ?thesis
  proof (cases "endOfMonth cur")
    case Invalid
    with s show ?thesis
      by (subst weekdayOccurrences_loop.simps) (simp add: monthDates_def)
  next
    case e: (DT t1 off1)
    from startOfMonth_range[OF s[unfolded DT]] have o0: "off0 = off"
      and r0: "\<bar>t0 + off * msPerMinute\<bar> \<le> maxTime" by auto
    from endOfMonth_range[OF e[unfolded DT]] have o1: "off1 = off"
      and r1: "\<bar>t1 + off * msPerMinute\<bar> \<le> maxTime" by auto
    have "weekdayOccurrences_loop (Some w) (DT t1 off1) (DT t0 off) []
          = [] @ filter (\<lambda>d. matchesTarget d (Some w))
                   (map (\<lambda>k. DT (t0 + int k * msPerDay) off)
                      [0 ..< nat ((t1 - t0) div msPerDay + 1)])"
      using r0 r1 by (intro weekdayOccurrences_loop_enumerates) auto
    with s e o0 show ?thesis
      by (simp add: monthDates_def matchesTarget_dayOfWeek)
  qed
qed

lemma targetOccurrenceOf_nth:
  "targetOccurrenceOf pos (filter (\<lambda>d. dayOfWeek d = Some (weekdayNum w)) (monthDates cur))
   = nthWeekdayOfMonth w pos cur"
  by (cases pos) (auto simp: nthWeekdayOfMonth_def last_conv_nth)

text \<open>The parser never leaves an empty \<open>byweekday\<close> or \<open>bysetpos\<close>: \<open>split\<close> gives at least one
  element.\<close>

lemma js_split_nonempty: "js_split c s \<noteq> []"
  by (induction s) (auto split: list.splits)

lemma parsePart_lists_nonempty:
  assumes "parsePart e opts p = Inr opts'"
    and "byweekday opts \<noteq> Some []" and "bysetpos opts \<noteq> Some []"
  shows "byweekday opts' \<noteq> Some [] \<and> bysetpos opts' \<noteq> Some []"
  using assms
  by (auto simp: parsePart_def Let_def js_split_nonempty split: if_splits option.splits)

lemma forEachPart_lists_nonempty:
  "forEachPart (parsePart e) opts ps = Inr opts' \<Longrightarrow>
   byweekday opts \<noteq> Some [] \<Longrightarrow> bysetpos opts \<noteq> Some [] \<Longrightarrow>
   byweekday opts' \<noteq> Some [] \<and> bysetpos opts' \<noteq> Some []"
proof (induction ps arbitrary: opts)
  case Nil
  then show ?case by simp
next
  case (Cons p ps)
  from Cons.prems(1) obtain o1 where p1: "parsePart e opts p = Inr o1"
    and r: "forEachPart (parsePart e) o1 ps = Inr opts'"
    by (auto split: sum.splits)
  from parsePart_lists_nonempty[OF p1 Cons.prems(2,3)] Cons.IH[OF r] show ?case by blast
qed

lemma parse_lists_nonempty:
  assumes "parseRRuleString e s st = Inr (Some opts)"
  shows "byweekday opts \<noteq> Some [] \<and> bysetpos opts \<noteq> Some []"
proof -
  from assms obtain part init where
    f: "forEachPart (parsePart e) init (js_split CHR '';'' part) = Inr opts"
    and i: "byweekday init = None" "bysetpos init = None"
    by (auto simp: parseRRuleString_def split: option.splits sum.splits if_splits)
  from forEachPart_lists_nonempty[OF f] i show ?thesis by simp
qed

subsection \<open>The occurrences behind the emitted texts\<close>

lemma plus_moved:
  "plusDays n cur = Inr nxt \<Longrightarrow> nxt = moved addDays n cur"
  "plusWeeks n cur = Inr nxt \<Longrightarrow> nxt = moved addWeeks n cur"
  "plusMonths n cur = Inr nxt \<Longrightarrow> nxt = moved addMonths n cur"
  "plusYears n cur = Inr nxt \<Longrightarrow> nxt = moved addYears n cur"
  by (cases n; cases cur; auto simp: addWeeks_def)+

lemma nat_diff_Suc: "c < m \<Longrightarrow> nat (m - c) = Suc (nat (m - (c + 1)))" for c m :: int
  by simp

lemma daily_loop_cursors:
  "generateDailyDates_loop e opts tz st m cur c ds = Inr xs \<Longrightarrow>
   \<exists>ys. xs = ds @ ys
        \<and> list_all2 (\<lambda>occ str. projectToZone e tz st occ = Inr str)
             (cursors opts (moved addDays (interval opts)) (nat (m - c)) cur) ys"
proof (induction e opts tz st m cur c ds rule: generateDailyDates_loop.induct)
  case (1 e opts tz st m cur c ds)
  show ?case
  proof (cases "c < m")
    case False
    with "1.prems" have "xs = ds" by (subst (asm) generateDailyDates_loop.simps) simp
    with False show ?thesis by simp
  next
    case lt: True
    show ?thesis
    proof (cases "pastUntil opts cur")
      case True
      with lt "1.prems" have "xs = ds"
        by (subst (asm) generateDailyDates_loop.simps) (simp add: pastUntil_def)
      with True lt show ?thesis by (simp add: nat_diff_Suc)
    next
      case False
      then have go: "\<not> (case until opts of None \<Rightarrow> False | Some u \<Rightarrow> date_gt (toJSDate cur) u)"
        by (simp add: pastUntil_def)
      from lt go "1.prems" obtain str nxt where p: "projectToZone e tz st cur = Inr str"
        and n: "plusDays (interval opts) cur = Inr nxt"
        and r: "generateDailyDates_loop e opts tz st m nxt (c + 1) (ds @ [str]) = Inr xs"
        by (subst (asm) generateDailyDates_loop.simps) (auto split: sum.splits)
      from "1.IH"[OF lt go p n r] obtain ys where ys: "xs = (ds @ [str]) @ ys"
        and l: "list_all2 (\<lambda>occ str. projectToZone e tz st occ = Inr str)
                  (cursors opts (moved addDays (interval opts)) (nat (m - (c + 1))) nxt) ys"
        by blast
      from plus_moved(1)[OF n] l p False lt ys show ?thesis
        by (simp add: nat_diff_Suc)
    qed
  qed
qed


lemma weekly_flat_loop_cursors:
  "generateWeeklyDates_flat_loop e opts tz st m cur c ds = Inr xs \<Longrightarrow>
   \<exists>ys. xs = ds @ ys
        \<and> list_all2 (\<lambda>occ str. projectToZone e tz st occ = Inr str)
             (cursors opts (moved addWeeks (interval opts)) (nat (m - c)) cur) ys"
proof (induction e opts tz st m cur c ds rule: generateWeeklyDates_flat_loop.induct)
  case (1 e opts tz st m cur c ds)
  show ?case
  proof (cases "c < m")
    case False
    with "1.prems" have "xs = ds" by (subst (asm) generateWeeklyDates_flat_loop.simps) simp
    with False show ?thesis by simp
  next
    case lt: True
    show ?thesis
    proof (cases "pastUntil opts cur")
      case True
      with lt "1.prems" have "xs = ds"
        by (subst (asm) generateWeeklyDates_flat_loop.simps) (simp add: pastUntil_def)
      with True lt show ?thesis by (simp add: nat_diff_Suc)
    next
      case False
      then have go: "\<not> (case until opts of None \<Rightarrow> False | Some u \<Rightarrow> date_gt (toJSDate cur) u)"
        by (simp add: pastUntil_def)
      from lt go "1.prems" obtain str nxt where p: "projectToZone e tz st cur = Inr str"
        and n: "plusWeeks (interval opts) cur = Inr nxt"
        and r: "generateWeeklyDates_flat_loop e opts tz st m nxt (c + 1) (ds @ [str]) = Inr xs"
        by (subst (asm) generateWeeklyDates_flat_loop.simps) (auto split: sum.splits)
      from "1.IH"[OF lt go p n r] obtain ys where ys: "xs = (ds @ [str]) @ ys"
        and l: "list_all2 (\<lambda>occ str. projectToZone e tz st occ = Inr str)
                  (cursors opts (moved addWeeks (interval opts)) (nat (m - (c + 1))) nxt) ys"
        by blast
      from plus_moved(2)[OF n] l p False lt ys show ?thesis
        by (simp add: nat_diff_Suc)
    qed
  qed
qed

lemma yearly_loop_cursors:
  "generateYearlyDates_loop e opts tz st m cur c ds = Inr xs \<Longrightarrow>
   \<exists>ys. xs = ds @ ys
        \<and> list_all2 (\<lambda>occ str. projectToZone e tz st occ = Inr str)
             (cursors opts (moved addYears (interval opts)) (nat (m - c)) cur) ys"
proof (induction e opts tz st m cur c ds rule: generateYearlyDates_loop.induct)
  case (1 e opts tz st m cur c ds)
  show ?case
  proof (cases "c < m")
    case False
    with "1.prems" have "xs = ds" by (subst (asm) generateYearlyDates_loop.simps) simp
    with False show ?thesis by simp
  next
    case lt: True
    show ?thesis
    proof (cases "pastUntil opts cur")
      case True
      with lt "1.prems" have "xs = ds"
        by (subst (asm) generateYearlyDates_loop.simps) (simp add: pastUntil_def)
      with True lt show ?thesis by (simp add: nat_diff_Suc)
    next
      case False
      then have go: "\<not> (case until opts of None \<Rightarrow> False | Some u \<Rightarrow> date_gt (toJSDate cur) u)"
        by (simp add: pastUntil_def)
      from lt go "1.prems" obtain str nxt where p: "projectToZone e tz st cur = Inr str"
        and n: "plusYears (interval opts) cur = Inr nxt"
        and r: "generateYearlyDates_loop e opts tz st m nxt (c + 1) (ds @ [str]) = Inr xs"
        by (subst (asm) generateYearlyDates_loop.simps) (auto split: sum.splits)
      from "1.IH"[OF lt go p n r] obtain ys where ys: "xs = (ds @ [str]) @ ys"
        and l: "list_all2 (\<lambda>occ str. projectToZone e tz st occ = Inr str)
                  (cursors opts (moved addYears (interval opts)) (nat (m - (c + 1))) nxt) ys"
        by blast
      from plus_moved(4)[OF n] l p False lt ys show ?thesis
        by (simp add: nat_diff_Suc)
    qed
  qed
qed

lemma includesWeekday_onWeekdays:
  "includesWeekday ws (currentWeekdayOf d) \<longleftrightarrow> onWeekdays ws d"
proof (cases d)
  case Invalid
  then show ?thesis by (simp add: includesWeekday_def currentWeekdayOf_def onWeekdays_def)
next
  case (DT t off)
  define x where "x = (t + off * msPerMinute) div msPerDay"
  have a: "(x + 3) mod 7 + 1 = 7 \<longleftrightarrow> (x + 4) mod 7 = 0" by presburger
  have b: "(x + 3) mod 7 + 1 \<noteq> 7 \<Longrightarrow> (x + 3) mod 7 + 1 = (x + 4) mod 7" by presburger
  have c: "currentWeekdayOf d = Num ((x + 4) mod 7)"
    using a b DT by (cases "(x + 3) mod 7 + 1 = 7") (simp_all add: currentWeekdayOf_def x_def)
  have "dayOfWeek d = Some ((x + 4) mod 7)" using DT by (simp add: x_def)
  moreover have "(\<exists>w \<in> set ws. Num (weekdayNum w) = Num k) \<longleftrightarrow> k \<in> weekdayNum ` set ws" for k
    by blast
  ultimately show ?thesis
    using c by (simp add: includesWeekday_def onWeekdays_def)
qed

lemma no_target_no_occurrence:
  "weekdayOccurrences_loop None monthEnd checkDate acc = acc"
proof (induction "None :: Weekday option" monthEnd checkDate acc rule: weekdayOccurrences_loop.induct)
  case (1 monthEnd checkDate acc)
  show ?case
  proof (cases "dt_le checkDate monthEnd")
    case True
    with 1(1)[OF True] show ?thesis
      by (subst weekdayOccurrences_loop.simps) (simp add: matchesTarget_def)
  next
    case False
    then show ?thesis by (subst weekdayOccurrences_loop.simps) simp
  qed
qed

lemma weekly_byday_loop_cursors:
  "generateWeeklyDates_byday_loop e opts ws tz st m cur c ds = Inr xs \<Longrightarrow>
   \<exists>ys. xs = ds @ ys
        \<and> list_all2 (\<lambda>occ str. projectToZone e tz st occ = Inr str)
             (filter (onWeekdays ws) (cursors opts (addDays 1) (nat (m - c)) cur)) ys"
proof (induction e opts ws tz st m cur c ds rule: generateWeeklyDates_byday_loop.induct)
  case (1 e opts ws tz st m cur c ds)
  show ?case
  proof (cases "c < m")
    case False
    with "1.prems" have "xs = ds" by (subst (asm) generateWeeklyDates_byday_loop.simps) simp
    with False show ?thesis by simp
  next
    case lt: True
    show ?thesis
    proof (cases "pastUntil opts cur")
      case True
      with lt "1.prems" have "xs = ds"
        by (subst (asm) generateWeeklyDates_byday_loop.simps) (simp add: pastUntil_def)
      with True lt show ?thesis by (simp add: nat_diff_Suc)
    next
      case False
      then have go: "\<not> (case until opts of None \<Rightarrow> False | Some u \<Rightarrow> date_gt (toJSDate cur) u)"
        by (simp add: pastUntil_def)
      show ?thesis
      proof (cases "includesWeekday ws (currentWeekdayOf cur)")
        case inc: True
        from lt go inc "1.prems" obtain str where p: "projectToZone e tz st cur = Inr str"
          and r: "generateWeeklyDates_byday_loop e opts ws tz st m (addDays 1 cur) (c + 1)
                    (ds @ [str]) = Inr xs"
          by (subst (asm) generateWeeklyDates_byday_loop.simps) (auto split: sum.splits)
        from "1.IH"(1)[OF lt go inc p r] obtain ys where ys: "xs = (ds @ [str]) @ ys"
          and l: "list_all2 (\<lambda>occ str. projectToZone e tz st occ = Inr str)
                    (filter (onWeekdays ws) (cursors opts (addDays 1) (nat (m - (c + 1)))
                       (addDays 1 cur))) ys"
          by blast
        from l p False lt ys inc show ?thesis
          by (simp add: nat_diff_Suc includesWeekday_onWeekdays)
      next
        case exc: False
        from lt go exc "1.prems" have
          r: "generateWeeklyDates_byday_loop e opts ws tz st m (addDays 1 cur) (c + 1) ds = Inr xs"
          by (subst (asm) generateWeeklyDates_byday_loop.simps) (auto split: sum.splits)
        from "1.IH"(2)[OF lt go exc r] obtain ys where ys: "xs = ds @ ys"
          and l: "list_all2 (\<lambda>occ str. projectToZone e tz st occ = Inr str)
                    (filter (onWeekdays ws) (cursors opts (addDays 1) (nat (m - (c + 1)))
                       (addDays 1 cur))) ys"
          by blast
        from l False lt ys exc show ?thesis
          by (simp add: nat_diff_Suc includesWeekday_onWeekdays)
      qed
    qed
  qed
qed

lemma monthlyEmit_occurrence:
  assumes "monthlyEmit e opts tz st cur = Inr strs"
  shows "list_all2 (\<lambda>occ str. projectToZone e tz st occ = Inr str) (monthlyOccurrence opts cur) strs"
proof (cases "byweekday opts")
  case None
  with assms show ?thesis
    by (auto simp: monthlyEmit_def monthlyOccurrence_def split: sum.splits)
next
  case sw: (Some ws)
  show ?thesis
  proof (cases "bysetpos opts")
    case None
    with sw assms show ?thesis
      by (auto simp: monthlyEmit_def monthlyOccurrence_def split: sum.splits)
  next
    case sp: (Some ps)
    show ?thesis
    proof (cases ws)
      case Nil
      have w: "weekdayOccurrences_loop (firstWeekday []) (endOfMonth cur) (startOfMonth cur) [] = []"
        by (simp add: firstWeekday_def no_target_no_occurrence)
      have t: "targetOccurrenceOf (firstPos ps) [] = None" by (cases "firstPos ps") simp_all
      from sw sp assms Nil show ?thesis
        by (simp add: monthlyEmit_def monthlyOccurrence_def Let_def w t)
    next
      case cw: (Cons w ws')
      show ?thesis
      proof (cases ps)
        case Nil
        with sw sp cw assms show ?thesis
          by (auto simp: monthlyEmit_def monthlyOccurrence_def firstPos_def Let_def)
      next
        case (Cons pos ps')
        with sw sp cw assms show ?thesis
          by (auto simp: monthlyEmit_def monthlyOccurrence_def firstWeekday_def firstPos_def
                Let_def weekdayOccurrences_of_month targetOccurrenceOf_nth
              split: option.splits sum.splits)
      qed
    qed
  qed
qed

lemma monthly_loop_cursors:
  "generateMonthlyDates_loop e opts tz st m cur c ds = Inr xs \<Longrightarrow>
   \<exists>ys. xs = ds @ ys
        \<and> list_all2 (\<lambda>occ str. projectToZone e tz st occ = Inr str)
             (concat (map (monthlyOccurrence opts)
                (cursors opts (moved addMonths (interval opts)) (nat (m - c)) cur))) ys"
proof (induction e opts tz st m cur c ds rule: generateMonthlyDates_loop.induct)
  case (1 e opts tz st m cur c ds)
  show ?case
  proof (cases "c < m")
    case False
    with "1.prems" have "xs = ds" by (subst (asm) generateMonthlyDates_loop.simps) simp
    with False show ?thesis by simp
  next
    case lt: True
    show ?thesis
    proof (cases "pastUntil opts cur")
      case True
      with lt "1.prems" have "xs = ds"
        by (subst (asm) generateMonthlyDates_loop.simps) (simp add: pastUntil_def)
      with True lt show ?thesis by (simp add: nat_diff_Suc)
    next
      case False
      then have go: "\<not> (case until opts of None \<Rightarrow> False | Some u \<Rightarrow> date_gt (toJSDate cur) u)"
        by (simp add: pastUntil_def)
      from lt go "1.prems" obtain strs nxt where p: "monthlyEmit e opts tz st cur = Inr strs"
        and n: "plusMonths (interval opts) cur = Inr nxt"
        and r: "generateMonthlyDates_loop e opts tz st m nxt (c + 1) (ds @ strs) = Inr xs"
        by (subst (asm) generateMonthlyDates_loop.simps) (auto split: sum.splits)
      from "1.IH"[OF lt go p n r] obtain ys where ys: "xs = (ds @ strs) @ ys"
        and l: "list_all2 (\<lambda>occ str. projectToZone e tz st occ = Inr str)
                  (concat (map (monthlyOccurrence opts)
                     (cursors opts (moved addMonths (interval opts)) (nat (m - (c + 1))) nxt))) ys"
        by blast
      from plus_moved(3)[OF n] l monthlyEmit_occurrence[OF p] False lt ys show ?thesis
        by (simp add: nat_diff_Suc list_all2_appendI)
    qed
  qed
qed

lemma concat_option_map_filter:
  "concat (map (\<lambda>x. case f x of None \<Rightarrow> [] | Some y \<Rightarrow> [y]) xs) = List.map_filter f xs"
  by (induction xs) (simp_all add: List.map_filter_simps split: option.splits)

lemma getDates_occurrences:
  assumes "parseRRuleString e rRuleString startTime = Inr (Some opts)"
    and "getDatesWithCustomTimezone e rRuleString tz startTime = Inr dates"
  shows "list_all2 (\<lambda>occ str. projectToZone e tz startTime occ = Inr str)
           (occurrencesOf e opts) dates"
proof -
  from assms(1) have ne: "rRuleString \<noteq> []" by (auto simp: parseRRuleString_def)
  show ?thesis
  proof (cases "freq opts")
    case DAILY
    with assms ne show ?thesis
      using daily_loop_cursors[of e opts tz startTime "maxCountOf opts" _ 0 "[]" dates]
      by (auto simp: getDatesWithCustomTimezone_def generateDailyDates_def occurrencesOf_def Let_def)
  next
    case WEEKLY
    with assms ne show ?thesis
      using weekly_flat_loop_cursors[of e opts tz startTime "maxCountOf opts" _ 0 "[]" dates]
        weekly_byday_loop_cursors[of e opts _ tz startTime "maxCountOf opts" _ 0 "[]" dates]
      by (auto simp: getDatesWithCustomTimezone_def generateWeeklyDates_def occurrencesOf_def
            Let_def split: option.splits list.splits if_splits)
  next
    case MONTHLY
    from MONTHLY assms ne have
      "list_all2 (\<lambda>occ str. projectToZone e tz startTime occ = Inr str)
         (concat (map (monthlyOccurrence opts)
            (cursors opts (moved addMonths (interval opts)) (nat (maxCountOf opts))
               (fromJSDate e (dtstart opts))))) dates"
      using monthly_loop_cursors[of e opts tz startTime "maxCountOf opts" _ 0 "[]" dates]
      by (auto simp: getDatesWithCustomTimezone_def generateMonthlyDates_def)
    moreover have "concat (map (monthlyOccurrence opts) xs)
        = (case (byweekday opts, bysetpos opts) of
             (Some ws, Some ps) \<Rightarrow>
               (case (ws, ps) of
                  (w # _, pos # _) \<Rightarrow> List.map_filter (nthWeekdayOfMonth w pos) xs
                | _ \<Rightarrow> [])
           | _ \<Rightarrow> xs)" for xs
      unfolding monthlyOccurrence_def
      by (auto simp: concat_option_map_filter split: option.splits list.splits)
    ultimately show ?thesis using MONTHLY by (simp add: occurrencesOf_def Let_def)
  next
    case YEARLY
    with assms ne show ?thesis
      using yearly_loop_cursors[of e opts tz startTime "maxCountOf opts" _ 0 "[]" dates]
      by (auto simp: getDatesWithCustomTimezone_def generateYearlyDates_def occurrencesOf_def Let_def)
  qed
qed

lemma moved_Num: "moved add (Num k) = add k"
  by (rule ext) simp

text \<open>
  Claim C6. Take a monthly rule with \<open>byweekday\<close> and \<open>bysetpos\<close> both given, a numeric
  interval \<open>i\<close> and a valid reference time. The generator returns, and the texts it
  returns are, in order, the projections of these dates: for each month cursor (the start,
  then each cursor \<open>i\<close> months after the one before, as many as the count allows and not
  past \<open>until\<close>), the date at the 1-based position \<open>bysetpos[0]\<close> (the last one for \<open>-1\<close>)
  among the dates of the cursor's month that fall on \<open>byweekday[0]\<close>, and nothing for a
  month in which the position is out of range. The cursor advances whether or not the
  month emitted.
\<close>

theorem monthly_nth_weekday_dates:
  assumes "parseRRuleString e rRuleString startTime = Inr (Some opts)"
    and "freq opts = MONTHLY" and "byweekday opts = Some ws" and "bysetpos opts = Some ps"
    and "interval opts = Num i" and "fromISO e startTime \<noteq> Invalid"
  shows "\<exists>w ws' pos ps' dates. ws = w # ws' \<and> ps = pos # ps'
           \<and> getDatesWithCustomTimezone e rRuleString targetTimeZone startTime = Inr dates
           \<and> list_all2 (\<lambda>d str. projectToZone e targetTimeZone startTime d = Inr str)
                 (List.map_filter (nthWeekdayOfMonth w pos)
                    (cursors opts (addMonths i) (nat (maxCountOf opts))
                       (fromJSDate e (dtstart opts))))
                 dates"
proof -
  from parse_lists_nonempty[OF assms(1)] assms(3,4) obtain w ws' pos ps'
    where l: "ws = w # ws'" "ps = pos # ps'"
    by (cases ws; cases ps) auto
  from assms(1) have ne: "rRuleString \<noteq> []" by (auto simp: parseRRuleString_def)
  from assms(6) obtain t0 off0 where r: "fromISO e startTime = DT t0 off0"
    by (cases "fromISO e startTime") auto
  from monthly_loop_returns[OF assms(5) r] obtain dates where
    "generateMonthlyDates_loop e opts targetTimeZone startTime (maxCountOf opts)
       (fromJSDate e (dtstart opts)) 0 [] = Inr dates"
    by blast
  with assms(1,2) ne
  have g: "getDatesWithCustomTimezone e rRuleString targetTimeZone startTime = Inr dates"
    by (simp add: getDatesWithCustomTimezone_def generateMonthlyDates_def)
  from getDates_occurrences[OF assms(1) g] assms(2-5) l
  have "list_all2 (\<lambda>d str. projectToZone e targetTimeZone startTime d = Inr str)
          (List.map_filter (nthWeekdayOfMonth w pos)
             (cursors opts (addMonths i) (nat (maxCountOf opts)) (fromJSDate e (dtstart opts))))
          dates"
    by (simp add: occurrencesOf_def Let_def moved_Num)
  with l g show ?thesis by blast
qed

theorem monthly_nth_weekday_dates_witness:
  "getDatesWithCustomTimezone exampleEnv exampleFifthMonday ''Europe/London''
       ''2024-09-29T04:45:00''
     = Inr [ISO \<lparr>year = 2024, month = 9, day = 30, hour = 4, minute = 45, second = 0,
                  millisecond = 0\<rparr> 60]
   \<and> cursors exampleFifthMondayOpts (addMonths 1) 3 (DT 1727585100000 (- 240))
     = [DT 1727585100000 (- 240), DT 1730177100000 (- 240), DT 1732855500000 (- 240)]
   \<and> map (nthWeekdayOfMonth MO (Num 5))
         [DT 1727585100000 (- 240), DT 1730177100000 (- 240), DT 1732855500000 (- 240)]
     = [Some (DT 1727668800000 (- 240)), None, None]
   \<and> list_all2 (\<lambda>d str. projectToZone exampleEnv ''Europe/London'' ''2024-09-29T04:45:00'' d
                            = Inr str)
         [DT 1727668800000 (- 240)]
         [ISO \<lparr>year = 2024, month = 9, day = 30, hour = 4, minute = 45, second = 0,
                millisecond = 0\<rparr> 60]"
proof -
  have p: "parseRRuleString exampleEnv exampleFifthMonday ''2024-09-29T04:45:00''
           = Inr (Some exampleFifthMondayOpts)"
    by code_simp
  have h: "freq exampleFifthMondayOpts = MONTHLY" "byweekday exampleFifthMondayOpts = Some [MO]"
    "bysetpos exampleFifthMondayOpts = Some [Num 5]" "interval exampleFifthMondayOpts = Num 1"
    by (simp_all add: exampleFifthMondayOpts_def)
  have r: "fromISO exampleEnv ''2024-09-29T04:45:00'' \<noteq> Invalid" by code_simp
  have g: "getDatesWithCustomTimezone exampleEnv exampleFifthMonday ''Europe/London''
       ''2024-09-29T04:45:00''
     = Inr [ISO \<lparr>year = 2024, month = 9, day = 30, hour = 4, minute = 45, second = 0,
                  millisecond = 0\<rparr> 60]"
    by code_simp
  have n: "nat (maxCountOf exampleFifthMondayOpts) = 3"
    "fromJSDate exampleEnv (dtstart exampleFifthMondayOpts) = DT 1727585100000 (- 240)"
    by (simp_all add: exampleFifthMondayOpts_def maxCountOf_def exampleEnv_def)
  have c: "cursors exampleFifthMondayOpts (addMonths 1) 3 (DT 1727585100000 (- 240))
     = [DT 1727585100000 (- 240), DT 1730177100000 (- 240), DT 1732855500000 (- 240)]"
    by code_simp
  have m: "map (nthWeekdayOfMonth MO (Num 5))
         [DT 1727585100000 (- 240), DT 1730177100000 (- 240), DT 1732855500000 (- 240)]
     = [Some (DT 1727668800000 (- 240)), None, None]"
    by code_simp
  have f: "List.map_filter (nthWeekdayOfMonth MO (Num 5))
         [DT 1727585100000 (- 240), DT 1730177100000 (- 240), DT 1732855500000 (- 240)]
     = [DT 1727668800000 (- 240)]"
    by code_simp
  from monthly_nth_weekday_dates[OF p h r, of "''Europe/London''"] g c m
  show ?thesis unfolding n c f by simp
qed


end
